theory Spec2Isabelle
  imports Main "HOL-Library.AList" "HOL-Library.Sublist"
begin

section \<open>The sync state store of \<^verbatim>\<open>samcli/commands/sync/sync_context.py\<close>\<close>

text \<open>
  The module keeps, per resource identifier, a content hash and the time of the last
  sync, plus one flag (\<^verbatim>\<open>dependency_layer\<close>), and persists them in a TOML file.
  The embedding follows the Python source function by function. Exceptions are values of
  the type \<open>error\<close>; a function that can raise returns \<open>error + 'a\<close>. Objects that the
  source shares between two owners (the dictionary of resource records) live in an explicit
  heap, so that aliasing is visible. The module-level lock is not modelled: every operation
  is taken as one atomic step. The functions of \<^verbatim>\<open>datetime\<close> and \<^verbatim>\<open>tomlkit\<close> that
  the module calls are parameters (\<open>libraries\<close>), so that nothing below depends on a
  version of Python.
\<close>

subsection \<open>Exceptions\<close>

datatype error = OSError | ValueError | TypeError | AttributeError | KeyError

subsection \<open>Strings\<close>

text \<open>\<^verbatim>\<open>s.replace(old, new)\<close> for one-character \<^verbatim>\<open>old\<close> and \<^verbatim>\<open>new\<close>, the only use
  the source makes of it: \<^verbatim>\<open>resource_id.replace("/", "-")\<close> when writing a key and
  \<^verbatim>\<open>resource_id.replace("-", "/")\<close> when reading one.\<close>

definition replace :: "char \<Rightarrow> char \<Rightarrow> string \<Rightarrow> string" where
  "replace old new s = map (\<lambda>c. if c = old then new else c) s"

subsection \<open>TOML documents as Python values\<close>

text \<open>
  What \<^verbatim>\<open>tomlkit.loads\<close> returns, seen as Python values: booleans, integers, strings,
  native TOML date-times (of the type \<open>'d\<close> of timestamps), arrays and tables (TOML
  floats are left out). A table is a Python dictionary: an association list in insertion order, read with \<open>map_of\<close>
  (\<^verbatim>\<open>d.get(k)\<close>) and written with \<open>AList.update\<close> (\<^verbatim>\<open>d[k] = v\<close>: an existing key
  keeps its place, a new key goes last). A Python value that may be \<^verbatim>\<open>None\<close> is a
  \<open>toml option\<close>.
\<close>

datatype 'd toml =
    TBool bool
  | TInt int
  | TStr string
  | TDateTime 'd
  | TArray "'d toml list"
  | TTable "(string \<times> 'd toml) list"

type_synonym 'd toml_document = "(string \<times> 'd toml) list"

text \<open>Python truth value, as \<^verbatim>\<open>if x:\<close> and \<^verbatim>\<open>x or y\<close> test it.\<close>

fun truthy :: "'d toml option \<Rightarrow> bool" where
  "truthy None = False"
| "truthy (Some (TBool b)) = b"
| "truthy (Some (TInt i)) = (i \<noteq> 0)"
| "truthy (Some (TStr s)) = (s \<noteq> [])"
| "truthy (Some (TDateTime t)) = True"
| "truthy (Some (TArray xs)) = (xs \<noteq> [])"
| "truthy (Some (TTable kvs)) = (kvs \<noteq> [])"

text \<open>\<^verbatim>\<open>x.get(k)\<close>: only a table has the method; on anything else Python raises
  \<^verbatim>\<open>AttributeError\<close>.\<close>

definition py_get :: "'d toml \<Rightarrow> string \<Rightarrow> error + 'd toml option" where
  "py_get x k = (case x of TTable kvs \<Rightarrow> Inr (map_of kvs k) | _ \<Rightarrow> Inl AttributeError)"

text \<open>Storing a value in a tomlkit table converts it to a TOML item; \<^verbatim>\<open>None\<close> has no
  TOML form and tomlkit raises \<^verbatim>\<open>ValueError\<close>.\<close>

fun tomlkit_item :: "'d toml option \<Rightarrow> error + 'd toml" where
  "tomlkit_item None = Inl ValueError"
| "tomlkit_item (Some v) = Inr v"

text \<open>A \<^verbatim>\<open>for\<close> loop whose body may raise: the first exception ends the loop.\<close>

fun for_each :: "('a \<Rightarrow> 's \<Rightarrow> error + 's) \<Rightarrow> 'a list \<Rightarrow> 's \<Rightarrow> error + 's" where
  "for_each body [] s = Inr s"
| "for_each body (x # xs) s =
     (case body x s of Inl e \<Rightarrow> Inl e | Inr s' \<Rightarrow> for_each body xs s')"

subsection \<open>The libraries\<close>

text \<open>
  What the module calls and does not define: \<^verbatim>\<open>datetime.isoformat\<close> and
  \<^verbatim>\<open>datetime.fromisoformat\<close>, over any type \<open>'d\<close> of timestamps, and tomlkit's
  \<^verbatim>\<open>dumps\<close> and \<^verbatim>\<open>loads\<close>, over any type \<open>'t\<close> of file contents.
  \<open>fromisoformat\<close> takes a string and may raise (\<open>Inl\<close>; Python raises
  \<^verbatim>\<open>ValueError\<close>); that its argument is a string is checked where it is called.
  \<^verbatim>\<open>loads\<close> may raise too. \<open>empty_text\<close> is the content of a file just truncated by
  \<^verbatim>\<open>open(path, "w+")\<close>.
\<close>

record ('d, 't) libraries =
  isoformat :: "'d \<Rightarrow> string"
  fromisoformat :: "string \<Rightarrow> error + 'd"
  dumps :: "'d toml_document \<Rightarrow> 't"
  loads :: "'t \<Rightarrow> error + 'd toml_document"
  empty_text :: 't

subsection \<open>Constants of the module\<close>

definition DEFAULT_SYNC_STATE_FILE_NAME :: string where
  "DEFAULT_SYNC_STATE_FILE_NAME = ''sync.toml''"

definition SYNC_STATE :: string where
  "SYNC_STATE = ''sync_state''"

definition RESOURCE_SYNC_STATES :: string where
  "RESOURCE_SYNC_STATES = ''resource_sync_states''"

definition HASH :: string where
  "HASH = ''hash''"

definition SYNC_TIME :: string where
  "SYNC_TIME = ''sync_time''"

definition DEPENDENCY_LAYER :: string where
  "DEPENDENCY_LAYER = ''dependency_layer''"

subsection \<open>The data classes\<close>

text \<open>
  \<^verbatim>\<open>hash_value\<close> is annotated \<^verbatim>\<open>str\<close>, but the decoder stores whatever
  \<^verbatim>\<open>.get("hash")\<close> returns, \<^verbatim>\<open>None\<close> included; the field is a \<open>toml option\<close>, and a
  hash string \<open>h\<close> is \<open>Some (TStr h)\<close>.

  \<^verbatim>\<open>SyncState\<close> has two type parameters. The flag of the current state is the
  \<^verbatim>\<open>bool\<close> passed to the constructor; the flag of a decoded state is whatever the
  document holds (\<open>toml option\<close>). The dictionary of records is a value
  (\<open>resource_dict\<close>) where a function builds or reads it, and an address into the heap
  where the store keeps it.
\<close>

record 'd ResourceSyncState =
  hash_value :: "'d toml option"
  sync_time :: 'd

type_synonym 'd resource_dict = "(string \<times> 'd ResourceSyncState) list"

record ('f, 'r) SyncState =
  dependency_layer :: 'f
  resource_sync_states :: 'r

text \<open>\<^verbatim>\<open>SyncState.update_resource_sync_state\<close>; the time read from \<^verbatim>\<open>datetime.utcnow()\<close>
  is a parameter.\<close>

definition SyncState_update_resource_sync_state ::
  "'d \<Rightarrow> string \<Rightarrow> string \<Rightarrow> 'd resource_dict \<Rightarrow> 'd resource_dict" where
  "SyncState_update_resource_sync_state utcnow resource_id hash_val states =
     AList.update resource_id \<lparr>hash_value = Some (TStr hash_val), sync_time = utcnow\<rparr> states"

subsection \<open>\<^verbatim>\<open>_sync_state_to_toml_document\<close>\<close>

text \<open>The body of the loop over \<^verbatim>\<open>sync_state.resource_sync_states\<close>.\<close>

definition encode_resource ::
  "('d, 't) libraries \<Rightarrow> 'd resource_dict \<Rightarrow> string \<Rightarrow> (string \<times> 'd toml) list
     \<Rightarrow> error + (string \<times> 'd toml) list" where
  "encode_resource lib states resource_id resource_sync_states_toml_table =
     (case map_of states resource_id of
        None \<Rightarrow> Inl KeyError
      | Some resource_sync_state \<Rightarrow>
          (case tomlkit_item (hash_value resource_sync_state) of
             Inl e \<Rightarrow> Inl e
           | Inr h \<Rightarrow>
               (let resource_sync_state_toml_table =
                      AList.update SYNC_TIME
                        (TStr (isoformat lib (sync_time resource_sync_state)))
                        (AList.update HASH h []);
                    resource_id_toml = replace CHR ''/'' CHR ''-'' resource_id
                in Inr (AList.update resource_id_toml (TTable resource_sync_state_toml_table)
                          resource_sync_states_toml_table))))"

text \<open>The comment line that the source adds to the document is not a key and is left
  out.\<close>

definition sync_state_to_toml_document ::
  "('d, 't) libraries \<Rightarrow> (bool, 'd resource_dict) SyncState \<Rightarrow> error + 'd toml_document" where
  "sync_state_to_toml_document lib sync_state =
     (let sync_state_toml_table =
            AList.update DEPENDENCY_LAYER (TBool (dependency_layer sync_state)) []
      in case for_each (encode_resource lib (resource_sync_states sync_state))
                (map fst (resource_sync_states sync_state)) [] of
           Inl e \<Rightarrow> Inl e
         | Inr resource_sync_states_toml_table \<Rightarrow>
             Inr [(SYNC_STATE, TTable sync_state_toml_table),
                  (RESOURCE_SYNC_STATES, TTable resource_sync_states_toml_table)])"

subsection \<open>\<^verbatim>\<open>_toml_document_to_sync_state\<close>\<close>

text \<open>
  The body of the loop over \<^verbatim>\<open>resource_sync_states_toml_table\<close>. The arguments of
  \<^verbatim>\<open>ResourceSyncState(...)\<close> are evaluated left to right: \<^verbatim>\<open>.get(HASH)\<close>, then
  \<^verbatim>\<open>.get(SYNC_TIME)\<close>, then \<^verbatim>\<open>fromisoformat\<close>, which raises \<^verbatim>\<open>TypeError\<close> on
  anything but a string, and as the library does on a string.
\<close>

definition decode_resource ::
  "('d, 't) libraries \<Rightarrow> (string \<times> 'd toml) list \<Rightarrow> string \<Rightarrow> 'd resource_dict
     \<Rightarrow> error + 'd resource_dict" where
  "decode_resource lib resource_sync_states_toml_table resource_id states =
     (case map_of resource_sync_states_toml_table resource_id of
        None \<Rightarrow> Inl AttributeError
      | Some resource_sync_state_toml_table \<Rightarrow>
          (case py_get resource_sync_state_toml_table HASH of
             Inl e \<Rightarrow> Inl e
           | Inr h \<Rightarrow>
               (case py_get resource_sync_state_toml_table SYNC_TIME of
                  Inl e \<Rightarrow> Inl e
                | Inr (Some (TStr s)) \<Rightarrow>
                    (case fromisoformat lib s of
                       Inl e \<Rightarrow> Inl e
                     | Inr t \<Rightarrow>
                         Inr (AList.update (replace CHR ''-'' CHR ''/'' resource_id)
                                \<lparr>hash_value = h, sync_time = t\<rparr> states))
                | Inr _ \<Rightarrow> Inl TypeError)))"

text \<open>
  The loop itself, entered only when the section is truthy. Iterating a table yields its
  keys. A non-empty string or array can be iterated, but the first \<^verbatim>\<open>.get\<close> on it raises
  \<^verbatim>\<open>AttributeError\<close>; a boolean, an integer or a date-time cannot be iterated
  (\<^verbatim>\<open>TypeError\<close>).
\<close>

fun decode_resources :: "('d, 't) libraries \<Rightarrow> 'd toml \<Rightarrow> error + 'd resource_dict" where
  "decode_resources lib (TTable kvs) = for_each (decode_resource lib kvs) (map fst kvs) []"
| "decode_resources lib (TStr s) = Inl AttributeError"
| "decode_resources lib (TArray xs) = Inl AttributeError"
| "decode_resources lib _ = Inl TypeError"

definition toml_document_to_sync_state ::
  "('d, 't) libraries \<Rightarrow> 'd toml_document
     \<Rightarrow> error + ('d toml option, 'd resource_dict) SyncState option" where
  "toml_document_to_sync_state lib toml_document =
     (if toml_document = [] then Inr None
      else
        let sync_state_toml_table = map_of toml_document SYNC_STATE;
            resource_sync_states_toml_table =
              (case map_of toml_document RESOURCE_SYNC_STATES of
                 None \<Rightarrow> TTable [] | Some v \<Rightarrow> v)
        in if \<not> (truthy sync_state_toml_table \<or> truthy (Some resource_sync_states_toml_table))
           then Inr None
           else
             (case (if truthy (Some resource_sync_states_toml_table)
                    then decode_resources lib resource_sync_states_toml_table
                    else Inr []) of
                Inl e \<Rightarrow> Inl e
              | Inr states \<Rightarrow>
                  (case (case sync_state_toml_table of
                           None \<Rightarrow> Inr (Some (TBool False))
                         | Some tbl \<Rightarrow>
                             if truthy (Some tbl) then py_get tbl DEPENDENCY_LAYER
                             else Inr (Some (TBool False))) of
                     Inl e \<Rightarrow> Inl e
                   | Inr dl \<Rightarrow>
                       Inr (Some \<lparr>dependency_layer = dl, resource_sync_states = states\<rparr>))))"

subsection \<open>Paths, files and the heap\<close>

text \<open>
  A path is an anchor (empty for a relative path) and the components below it;
  \<^verbatim>\<open>Path.parent\<close> drops the last component and \<^verbatim>\<open>joinpath\<close> adds one, as pathlib
  does lexically. The conversion \<^verbatim>\<open>Path(build_dir)\<close> from a string is not modelled: the
  constructor of the store takes paths.
\<close>

datatype path = Path (anchor: string) (parts: "string list")

definition parent :: "path \<Rightarrow> path" where
  "parent p = Path (anchor p) (butlast (parts p))"

definition joinpath :: "path \<Rightarrow> string \<Rightarrow> path" where
  "joinpath p name = Path (anchor p) (parts p @ [name])"

definition is_under :: "path \<Rightarrow> path \<Rightarrow> bool" where
  "is_under d p = (anchor d = anchor p \<and> prefix (parts d) (parts p))"

text \<open>
  The world outside the store object: the heap of dictionaries of resource records
  (\<open>next_addr\<close> is the next free address), the files by path, the paths whose opening for
  reading or for writing fails with \<^verbatim>\<open>OSError\<close>, the directories that exist, and the
  sequence of calls made to \<^verbatim>\<open>rmtree_if_exists\<close>.
\<close>

type_synonym addr = nat

record ('d, 't) world =
  heap :: "addr \<Rightarrow> 'd resource_dict"
  next_addr :: addr
  files :: "path \<Rightarrow> 't option"
  unreadable :: "path set"
  unwritable :: "path set"
  dirs :: "path set"
  rmtree_calls :: "path list"

text \<open>\<^verbatim>\<open>dict()\<close>: a new dictionary object at a fresh address.\<close>

definition new_dict :: "'d resource_dict \<Rightarrow> ('d, 't) world \<Rightarrow> addr \<times> ('d, 't) world" where
  "new_dict d w =
     (next_addr w, w\<lparr>heap := (heap w)(next_addr w := d), next_addr := Suc (next_addr w)\<rparr>)"

text \<open>
  Modelled from the spec: \<^verbatim>\<open>samcli.lib.utils.osutils.rmtree_if_exists\<close> is not among
  the sources. The spec gives its contract: "given a directory path, removes it if present,
  tolerating absence" and "never fails on absence". Removing a directory removes what is
  under it.
\<close>

definition rmtree_if_exists :: "path \<Rightarrow> ('d, 't) world \<Rightarrow> ('d, 't) world" where
  "rmtree_if_exists p w =
     w\<lparr>dirs := {d \<in> dirs w. \<not> is_under p d},
       files := (\<lambda>f. if is_under p f then None else files w f),
       rmtree_calls := rmtree_calls w @ [p]\<rparr>"

subsection \<open>\<^verbatim>\<open>SyncContext\<close>\<close>

text \<open>
  The two states of the store hold the address of their dictionary, as the Python objects
  hold a reference. Every method takes the store and the world and returns its outcome
  with both: what a method changed before it raised stays changed.
\<close>

record 'd SyncContext =
  current_state :: "(bool, addr) SyncState"
  previous_state :: "('d toml option, addr) SyncState option"
  build_dir :: path
  cache_dir :: path
  file_path :: path

definition SyncContext_init ::
  "bool \<Rightarrow> path \<Rightarrow> path \<Rightarrow> ('d, 't) world \<Rightarrow> 'd SyncContext \<times> ('d, 't) world" where
  "SyncContext_init dep_layer build cache w =
     (case new_dict [] w of
        (a, w') \<Rightarrow>
          (\<lparr>current_state = \<lparr>dependency_layer = dep_layer, resource_sync_states = a\<rparr>,
            previous_state = None,
            build_dir = build,
            cache_dir = cache,
            file_path = joinpath (parent build) DEFAULT_SYNC_STATE_FILE_NAME\<rparr>, w'))"

text \<open>\<^verbatim>\<open>_write\<close>: the file is opened, and so truncated, before the document is built.\<close>

definition SyncContext_write ::
  "('d, 't) libraries \<Rightarrow> 'd SyncContext \<Rightarrow> ('d, 't) world
     \<Rightarrow> (error + unit) \<times> ('d, 't) world" where
  "SyncContext_write lib self w =
     (if file_path self \<in> unwritable w then (Inl OSError, w)
      else
        let w1 = w\<lparr>files := (files w)(file_path self \<mapsto> empty_text lib)\<rparr>
        in case sync_state_to_toml_document lib
                  \<lparr>dependency_layer = dependency_layer (current_state self),
                    resource_sync_states =
                      heap w1 (resource_sync_states (current_state self))\<rparr> of
             Inl e \<Rightarrow> (Inl e, w1)
           | Inr toml_document \<Rightarrow>
               (Inr (), w1\<lparr>files := (files w1)(file_path self \<mapsto> dumps lib toml_document)\<rparr>))"

text \<open>
  \<^verbatim>\<open>_read\<close>, first the body of its \<^verbatim>\<open>try\<close>, then the handler, which catches
  \<^verbatim>\<open>OSError\<close> only. A \<^verbatim>\<open>SyncState\<close> object is always truthy, so the test
  \<^verbatim>\<open>if self._previous_state\<close> asks whether the decoder returned a state. The assignment
  \<^verbatim>\<open>self._current_state.resource_sync_states = self._previous_state.resource_sync_states\<close>
  copies the reference: both states then hold the same dictionary.
\<close>

definition SyncContext_read_body ::
  "('d, 't) libraries \<Rightarrow> 'd SyncContext \<Rightarrow> ('d, 't) world
     \<Rightarrow> (error + unit) \<times> 'd SyncContext \<times> ('d, 't) world" where
  "SyncContext_read_body lib self w =
     (if file_path self \<in> unreadable w then (Inl OSError, self, w)
      else
        case files w (file_path self) of
          None \<Rightarrow> (Inl OSError, self, w)
        | Some text \<Rightarrow>
            (case loads lib text of
               Inl e \<Rightarrow> (Inl e, self, w)
             | Inr toml_document \<Rightarrow>
                 (case toml_document_to_sync_state lib toml_document of
                    Inl e \<Rightarrow> (Inl e, self, w)
                  | Inr None \<Rightarrow> (Inr (), self\<lparr>previous_state := None\<rparr>, w)
                  | Inr (Some st) \<Rightarrow>
                      (case new_dict (resource_sync_states st) w of
                         (a, w') \<Rightarrow>
                           (Inr (),
                            self\<lparr>previous_state :=
                                   Some \<lparr>dependency_layer = dependency_layer st,
                                         resource_sync_states = a\<rparr>,
                                 current_state :=
                                   (current_state self)\<lparr>resource_sync_states := a\<rparr>\<rparr>,
                            w')))))"

definition SyncContext_read ::
  "('d, 't) libraries \<Rightarrow> 'd SyncContext \<Rightarrow> ('d, 't) world
     \<Rightarrow> (error + unit) \<times> 'd SyncContext \<times> ('d, 't) world" where
  "SyncContext_read lib self w =
     (case SyncContext_read_body lib self w of
        (r, self', w') \<Rightarrow> (if r = Inl OSError then Inr () else r, self', w'))"

text \<open>\<^verbatim>\<open>_cleanup_build_folders\<close>. The constant \<^verbatim>\<open>DEFAULT_DEPENDENCIES_DIR\<close> comes from
  a module that is not among the sources; it is a parameter.\<close>

definition SyncContext_cleanup_build_folders ::
  "path \<Rightarrow> 'd SyncContext \<Rightarrow> ('d, 't) world \<Rightarrow> ('d, 't) world" where
  "SyncContext_cleanup_build_folders dependencies_dir self w =
     rmtree_if_exists dependencies_dir
       (rmtree_if_exists (cache_dir self)
          (rmtree_if_exists (build_dir self) w))"

text \<open>
  Python's \<^verbatim>\<open>==\<close> between a value read from a document and a \<^verbatim>\<open>bool\<close>: a boolean
  equals itself, the integers 1 and 0 equal \<^verbatim>\<open>True\<close> and \<^verbatim>\<open>False\<close>, and nothing
  else (\<^verbatim>\<open>None\<close> included) equals a boolean.
\<close>

fun py_eq_bool :: "'d toml option \<Rightarrow> bool \<Rightarrow> bool" where
  "py_eq_bool (Some (TBool a)) b = (a = b)"
| "py_eq_bool (Some (TInt i)) b = (i = (if b then 1 else 0))"
| "py_eq_bool _ b = False"

definition SyncContext_enter ::
  "('d, 't) libraries \<Rightarrow> path \<Rightarrow> 'd SyncContext \<Rightarrow> ('d, 't) world
     \<Rightarrow> (error + unit) \<times> 'd SyncContext \<times> ('d, 't) world" where
  "SyncContext_enter lib dependencies_dir self w =
     (case SyncContext_read lib self w of
        (Inl e, self', w') \<Rightarrow> (Inl e, self', w')
      | (Inr u, self', w') \<Rightarrow>
          (case previous_state self' of
             None \<Rightarrow> (Inr (), self', w')
           | Some prev \<Rightarrow>
               if \<not> py_eq_bool (dependency_layer prev) (dependency_layer (current_state self'))
               then (Inr (), self', SyncContext_cleanup_build_folders dependencies_dir self' w')
               else (Inr (), self', w')))"

definition SyncContext_exit ::
  "('d, 't) libraries \<Rightarrow> 'd SyncContext \<Rightarrow> ('d, 't) world
     \<Rightarrow> (error + unit) \<times> 'd SyncContext \<times> ('d, 't) world" where
  "SyncContext_exit lib self w =
     (case SyncContext_write lib self w of (r, w') \<Rightarrow> (r, self, w'))"

definition update_resource_sync_state ::
  "('d, 't) libraries \<Rightarrow> 'd \<Rightarrow> string \<Rightarrow> string \<Rightarrow> 'd SyncContext \<Rightarrow> ('d, 't) world
     \<Rightarrow> (error + unit) \<times> 'd SyncContext \<times> ('d, 't) world" where
  "update_resource_sync_state lib utcnow resource_id hash_val self w =
     (let a = resource_sync_states (current_state self);
          w1 = w\<lparr>heap := (heap w)(a :=
                  SyncState_update_resource_sync_state utcnow resource_id hash_val (heap w a))\<rparr>
      in case SyncContext_write lib self w1 of (r, w2) \<Rightarrow> (r, self, w2))"

text \<open>A \<^verbatim>\<open>ResourceSyncState\<close> object is always truthy, so \<^verbatim>\<open>if not resource_sync_state\<close>
  asks whether \<^verbatim>\<open>.get(resource_id)\<close> returned \<^verbatim>\<open>None\<close>.\<close>

definition get_resource_latest_sync_hash ::
  "string \<Rightarrow> 'd SyncContext \<Rightarrow> ('d, 't) world
     \<Rightarrow> (error + 'd toml option) \<times> 'd SyncContext \<times> ('d, 't) world" where
  "get_resource_latest_sync_hash resource_id self w =
     (case map_of (heap w (resource_sync_states (current_state self))) resource_id of
        None \<Rightarrow> (Inr None, self, w)
      | Some resource_sync_state \<Rightarrow> (Inr (hash_value resource_sync_state), self, w))"

subsection \<open>Auxiliary notions for the statements\<close>

text \<open>A timestamp that survives printing and reading. The documentation of
  \<^verbatim>\<open>fromisoformat\<close> promises this of every \<^verbatim>\<open>datetime\<close> object: it is the inverse of
  \<^verbatim>\<open>isoformat\<close>.\<close>

definition reads_back :: "('d, 't) libraries \<Rightarrow> 'd \<Rightarrow> bool" where
  "reads_back lib t = (fromisoformat lib (isoformat lib t) = Inr t)"

text \<open>What Python's types give for free: the keys of a dictionary are distinct, and its
  timestamps are \<^verbatim>\<open>datetime\<close> objects.\<close>

definition python_dict :: "('d, 't) libraries \<Rightarrow> 'd resource_dict \<Rightarrow> bool" where
  "python_dict lib d =
     (distinct (map fst d) \<and> list_all (\<lambda>p. reads_back lib (sync_time (snd p))) d)"

text \<open>The serializer law: \<^verbatim>\<open>loads\<close> reads back what \<^verbatim>\<open>dumps\<close> wrote.\<close>

definition roundtrips :: "('d, 't) libraries \<Rightarrow> bool" where
  "roundtrips lib = (\<forall>d. loads lib (dumps lib d) = Inr d)"

text \<open>The entry that the encoder writes for one record; a record without a hash
  corresponds to an entry without the \<^verbatim>\<open>hash\<close> key.\<close>

definition toml_entry ::
  "('d, 't) libraries \<Rightarrow> string \<times> 'd ResourceSyncState \<Rightarrow> string \<times> 'd toml" where
  "toml_entry lib p =
     (replace CHR ''/'' CHR ''-'' (fst p),
      TTable ((case hash_value (snd p) of None \<Rightarrow> [] | Some h \<Rightarrow> [(HASH, h)]) @
              [(SYNC_TIME, TStr (isoformat lib (sync_time (snd p))))]))"

text \<open>The document that the encoder builds when the escaped identifiers are distinct.\<close>

definition document_of ::
  "('d, 't) libraries \<Rightarrow> (bool, 'd resource_dict) SyncState \<Rightarrow> 'd toml_document" where
  "document_of lib S =
     [(SYNC_STATE, TTable [(DEPENDENCY_LAYER, TBool (dependency_layer S))]),
      (RESOURCE_SYNC_STATES, TTable (map (toml_entry lib) (resource_sync_states S)))]"

text \<open>The identifiers that a dictionary lists after a given one (none when it is not a
  key): the records inserted after its record.\<close>

definition inserted_after :: "string \<Rightarrow> 'd resource_dict \<Rightarrow> string list" where
  "inserted_after resource_id d =
     map fst (drop 1 (dropWhile (\<lambda>p. fst p \<noteq> resource_id) d))"

text \<open>The record that survives the encoder for a given identifier: the dictionary is
  written in insertion order under escaped keys, so an entry is overwritten by the entry
  of every later identifier with the same escaped form, and what is left is the record of
  the last of them (none when no identifier has that escaped form).\<close>

definition surviving_record :: "string \<Rightarrow> 'd resource_dict \<Rightarrow> 'd ResourceSyncState option" where
  "surviving_record resource_id d =
     (case filter (\<lambda>p. replace CHR ''/'' CHR ''-'' (fst p)
                        = replace CHR ''/'' CHR ''-'' resource_id) d of
        [] \<Rightarrow> None
      | p # ps \<Rightarrow> Some (snd (last (p # ps))))"

text \<open>An entry of the resource section that the decoder can read: a table whose
  \<^verbatim>\<open>sync_time\<close> is a string that \<^verbatim>\<open>fromisoformat\<close> accepts.\<close>

fun decodable_entry :: "('d, 't) libraries \<Rightarrow> 'd toml \<Rightarrow> bool" where
  "decodable_entry lib (TTable ent) =
     (case map_of ent SYNC_TIME of
        Some (TStr s) \<Rightarrow> (case fromisoformat lib s of Inr t \<Rightarrow> True | Inl e \<Rightarrow> False)
      | _ \<Rightarrow> False)"
| "decodable_entry lib _ = False"

text \<open>A resource section the decoder can read: falsy (then skipped), or a table of
  decodable entries. A flag section the decoder can read: falsy, or a table.\<close>

fun decodable_resources :: "('d, 't) libraries \<Rightarrow> 'd toml \<Rightarrow> bool" where
  "decodable_resources lib (TTable kvs) = list_all (\<lambda>e. decodable_entry lib (snd e)) kvs"
| "decodable_resources lib v = (\<not> truthy (Some v))"

fun decodable_flag_section :: "'d toml \<Rightarrow> bool" where
  "decodable_flag_section (TTable kvs) = True"
| "decodable_flag_section v = (\<not> truthy (Some v))"

text \<open>The keys of a table are distinct, as the keys of a Python dictionary are.\<close>

fun distinct_keys :: "'d toml \<Rightarrow> bool" where
  "distinct_keys (TTable kvs) = distinct (map fst kvs)"
| "distinct_keys v = True"

text \<open>The flag that the decoder gives a state: what the flag section holds under
  \<^verbatim>\<open>dependency_layer\<close> (\<^verbatim>\<open>None\<close> when the key is missing), and \<^verbatim>\<open>False\<close> when the
  section is missing or falsy.\<close>

fun decoded_flag :: "'d toml option \<Rightarrow> 'd toml option" where
  "decoded_flag (Some (TTable (kv # kvs))) = map_of (kv # kvs) DEPENDENCY_LAYER"
| "decoded_flag v = Some (TBool False)"

text \<open>The record that the decoder makes of an entry, and the entries of the resource
  section of a document (none when the section is missing or not a table).\<close>

definition decoded_record ::
  "('d, 't) libraries \<Rightarrow> (string \<times> 'd toml) list \<Rightarrow> 'd ResourceSyncState option" where
  "decoded_record lib ent =
     (case map_of ent SYNC_TIME of
        Some (TStr s) \<Rightarrow>
          (case fromisoformat lib s of
             Inr t \<Rightarrow> Some \<lparr>hash_value = map_of ent HASH, sync_time = t\<rparr>
           | Inl e \<Rightarrow> None)
      | _ \<Rightarrow> None)"

definition resource_entries :: "'d toml_document \<Rightarrow> (string \<times> 'd toml) list" where
  "resource_entries doc =
     (case map_of doc RESOURCE_SYNC_STATES of Some (TTable kvs) \<Rightarrow> kvs | _ \<Rightarrow> [])"

subsection \<open>A library for the examples: naive timestamps\<close>

text \<open>
  One instance of the libraries, used to evaluate the store on concrete inputs. Its
  timestamps are naive (no time zone), as \<^verbatim>\<open>datetime.utcnow()\<close> returns them: seven
  fields, constrained as the \<^verbatim>\<open>datetime\<close> constructor constrains them
  (\<open>valid_datetime\<close>). \<open>isoformat_naive\<close> prints \<^verbatim>\<open>YYYY-MM-DDTHH:MM:SS\<close>, followed
  by \<^verbatim>\<open>.ffffff\<close> when the microsecond is not zero, as \<^verbatim>\<open>datetime.isoformat()\<close>
  does. \<open>fromisoformat_naive\<close> reads \<^verbatim>\<open>YYYY-MM-DD[*HH[:MM[:SS[.fff[fff]]]]]\<close>, where
  \<^verbatim>\<open>*\<close> is any single character, and answers \<^verbatim>\<open>ValueError\<close> on every other
  string. It is not all of \<^verbatim>\<open>datetime.fromisoformat\<close>, which also reads strings with a
  UTC offset and, from Python 3.11, further ISO-8601 forms; no general statement below
  depends on it, and the examples use it only on strings that \<open>isoformat_naive\<close> printed
  and on the string \<^verbatim>\<open>yesterday\<close>, where it answers as every version of Python does.
\<close>

record datetime =
  year :: nat
  month :: nat
  day :: nat
  hour :: nat
  minute :: nat
  second :: nat
  microsecond :: nat

definition is_leap :: "nat \<Rightarrow> bool" where
  "is_leap y = (y mod 4 = 0 \<and> (y mod 100 \<noteq> 0 \<or> y mod 400 = 0))"

definition days_in_month :: "nat \<Rightarrow> nat \<Rightarrow> nat" where
  "days_in_month y m =
     (if m = 2 then (if is_leap y then 29 else 28)
      else if m = 4 \<or> m = 6 \<or> m = 9 \<or> m = 11 then 30 else 31)"

definition valid_datetime :: "datetime \<Rightarrow> bool" where
  "valid_datetime t =
     (1 \<le> year t \<and> year t \<le> 9999 \<and> 1 \<le> month t \<and> month t \<le> 12 \<and>
      1 \<le> day t \<and> day t \<le> days_in_month (year t) (month t) \<and>
      hour t < 24 \<and> minute t < 60 \<and> second t < 60 \<and> microsecond t < 1000000)"

definition digit_char :: "nat \<Rightarrow> char" where
  "digit_char d = char_of (48 + d)"

definition is_digit :: "char \<Rightarrow> bool" where
  "is_digit c = (48 \<le> (of_char c :: nat) \<and> (of_char c :: nat) \<le> 57)"

definition digit_val :: "char \<Rightarrow> nat" where
  "digit_val c = of_char c - 48"

text \<open>\<open>digits w n\<close> is \<^verbatim>\<open>"%0wd" % n\<close> for \<open>n < 10 ^ w\<close>: the fields of a valid
  timestamp never need more than their width.\<close>

fun digits :: "nat \<Rightarrow> nat \<Rightarrow> string" where
  "digits 0 n = []"
| "digits (Suc w) n = digits w (n div 10) @ [digit_char (n mod 10)]"

definition parse_int :: "string \<Rightarrow> nat option" where
  "parse_int s =
     (if s \<noteq> [] \<and> list_all is_digit s
      then Some (foldl (\<lambda>a c. 10 * a + digit_val c) 0 s) else None)"

definition isoformat_naive :: "datetime \<Rightarrow> string" where
  "isoformat_naive t =
     digits 4 (year t) @ ''-'' @ digits 2 (month t) @ ''-'' @ digits 2 (day t) @ ''T'' @
     digits 2 (hour t) @ '':'' @ digits 2 (minute t) @ '':'' @ digits 2 (second t) @
     (if microsecond t = 0 then [] else ''.'' @ digits 6 (microsecond t))"

definition parse_isoformat_date :: "string \<Rightarrow> (nat \<times> nat \<times> nat) option" where
  "parse_isoformat_date s =
     (if length s = 10 \<and> s ! 4 = CHR ''-'' \<and> s ! 7 = CHR ''-''
      then (case (parse_int (take 4 s), parse_int (take 2 (drop 5 s)), parse_int (drop 8 s)) of
              (Some y, Some m, Some d) \<Rightarrow> Some (y, m, d)
            | _ \<Rightarrow> None)
      else None)"

definition parse_hh_mm_ss_ff :: "string \<Rightarrow> (nat \<times> nat \<times> nat \<times> nat) option" where
  "parse_hh_mm_ss_ff s =
     (let n = length s in
      if n = 2 then
        (case parse_int s of Some h \<Rightarrow> Some (h, 0, 0, 0) | None \<Rightarrow> None)
      else if n = 5 \<and> s ! 2 = CHR '':'' then
        (case (parse_int (take 2 s), parse_int (drop 3 s)) of
           (Some h, Some m) \<Rightarrow> Some (h, m, 0, 0)
         | _ \<Rightarrow> None)
      else if n = 8 \<and> s ! 2 = CHR '':'' \<and> s ! 5 = CHR '':'' then
        (case (parse_int (take 2 s), parse_int (take 2 (drop 3 s)), parse_int (drop 6 s)) of
           (Some h, Some m, Some sec) \<Rightarrow> Some (h, m, sec, 0)
         | _ \<Rightarrow> None)
      else if (n = 12 \<or> n = 15) \<and> s ! 2 = CHR '':'' \<and> s ! 5 = CHR '':'' \<and> s ! 8 = CHR ''.'' then
        (case (parse_int (take 2 s), parse_int (take 2 (drop 3 s)),
               parse_int (take 2 (drop 6 s)), parse_int (drop 9 s)) of
           (Some h, Some m, Some sec, Some f) \<Rightarrow>
             Some (h, m, sec, if n = 12 then f * 1000 else f)
         | _ \<Rightarrow> None)
      else None)"

definition fromisoformat_naive :: "string \<Rightarrow> error + datetime" where
  "fromisoformat_naive s =
     (case parse_isoformat_date (take 10 s) of
        None \<Rightarrow> Inl ValueError
      | Some (y, m, d) \<Rightarrow>
          (case (if length s = 10 then Some (0, 0, 0, 0) else parse_hh_mm_ss_ff (drop 11 s)) of
             None \<Rightarrow> Inl ValueError
           | Some (hh, mm, ss, us) \<Rightarrow>
               (let t = \<lparr>year = y, month = m, day = d, hour = hh, minute = mm,
                         second = ss, microsecond = us\<rparr>
                in if valid_datetime t then Inr t else Inl ValueError)))"

subsection \<open>Concrete values for the examples\<close>

text \<open>The libraries of the examples: naive timestamps, and a serializer whose file
  contents are the documents themselves.\<close>

definition naive_libs :: "(datetime, datetime toml_document) libraries" where
  "naive_libs = \<lparr>isoformat = isoformat_naive, fromisoformat = fromisoformat_naive,
                 dumps = (\<lambda>d. d), loads = Inr, empty_text = []\<rparr>"

definition world0 :: "(datetime, datetime toml_document) world" where
  "world0 = \<lparr>heap = (\<lambda>a. []), next_addr = 0, files = (\<lambda>p. None), unreadable = {},
             unwritable = {}, dirs = {}, rmtree_calls = []\<rparr>"

definition stamp0 :: datetime where
  "stamp0 = \<lparr>year = 2023, month = 1, day = 5, hour = 3, minute = 4, second = 9,
             microsecond = 0\<rparr>"

definition stamp1 :: datetime where
  "stamp1 = \<lparr>year = 2024, month = 2, day = 29, hour = 23, minute = 59, second = 59,
             microsecond = 120\<rparr>"

definition build0 :: path where
  "build0 = Path [] [''.aws-sam'', ''build'']"

definition cache0 :: path where
  "cache0 = Path [] [''.aws-sam'', ''cache'']"

definition deps0 :: path where
  "deps0 = Path [] [''.aws-sam'', ''deps'']"

definition file0 :: path where
  "file0 = Path [] [''.aws-sam'', ''sync.toml'']"

definition record0 :: "datetime ResourceSyncState" where
  "record0 = \<lparr>hash_value = Some (TStr ''h0''), sync_time = stamp0\<rparr>"

definition state0 :: "(bool, datetime resource_dict) SyncState" where
  "state0 = \<lparr>dependency_layer = True, resource_sync_states = [(''Stack/Fn'', record0)]\<rparr>"

text \<open>A world whose state file holds \<open>state0\<close>, written by a session that ran with the
  dependency layer enabled, and whose three directories exist.\<close>

definition world1 :: "(datetime, datetime toml_document) world" where
  "world1 = world0\<lparr>files := (files world0)(file0 \<mapsto> document_of naive_libs state0),
                   dirs := {build0, cache0, deps0}\<rparr>"

text \<open>A world whose state file holds an entry with a \<^verbatim>\<open>sync_time\<close> that is not a
  timestamp.\<close>

definition world2 :: "(datetime, datetime toml_document) world" where
  "world2 = world0\<lparr>files := (files world0)(file0 \<mapsto>
              [(RESOURCE_SYNC_STATES,
                TTable [(''Fn'', TTable [(HASH, TStr ''h''), (SYNC_TIME, TStr ''yesterday'')])])])\<rparr>"

text \<open>A world whose state file holds an entry without the \<^verbatim>\<open>hash\<close> key.\<close>

definition world3 :: "(datetime, datetime toml_document) world" where
  "world3 = world0\<lparr>files := (files world0)(file0 \<mapsto>
              [(RESOURCE_SYNC_STATES,
                TTable [(''Fn'', TTable [(SYNC_TIME, TStr (isoformat_naive stamp0))])])])\<rparr>"

section \<open>The naive timestamps survive printing and reading\<close>

lemma length_digits [simp]: "length (digits w n) = w"
  by (induction w arbitrary: n) auto

lemma is_digit_digit_char: "d < 10 \<Longrightarrow> is_digit (digit_char d)"
  by (simp add: is_digit_def digit_char_def)

lemma digit_val_digit_char: "d < 10 \<Longrightarrow> digit_val (digit_char d) = d"
  by (simp add: digit_val_def digit_char_def)

lemma list_all_digits: "list_all is_digit (digits w n)"
  by (induction w arbitrary: n) (auto simp: is_digit_digit_char)

lemma foldl_digits:
  "n < 10 ^ w \<Longrightarrow> foldl (\<lambda>a c. 10 * a + digit_val c) 0 (digits w n) = n"
proof (induction w arbitrary: n)
  case 0
  then show ?case by simp
next
  case (Suc w)
  from Suc.prems have "n div 10 < 10 ^ w"
    by (simp add: less_mult_imp_div_less mult.commute)
  with Suc.IH have "foldl (\<lambda>a c. 10 * a + digit_val c) 0 (digits w (n div 10)) = n div 10" .
  then show ?case by (simp add: digit_val_digit_char)
qed

lemma parse_int_digits: "0 < w \<Longrightarrow> n < 10 ^ w \<Longrightarrow> parse_int (digits w n) = Some n"
  unfolding parse_int_def using list_all_digits[of w n] foldl_digits[of n w]
  by (cases w) auto

lemma date_part:
  assumes "valid_datetime t"
  shows "parse_isoformat_date
           (digits 4 (year t) @ ''-'' @ digits 2 (month t) @ ''-'' @ digits 2 (day t))
         = Some (year t, month t, day t)"
proof -
  from assms have y: "year t < 10 ^ 4" and m: "month t < 10 ^ 2" and d: "day t < 10 ^ 2"
    by (auto simp: valid_datetime_def days_in_month_def split: if_splits)
  show ?thesis
    unfolding parse_isoformat_date_def
    by (simp add: nth_append parse_int_digits[OF _ y] parse_int_digits[OF _ m]
          parse_int_digits[OF _ d])
qed

lemma time_part_whole:
  assumes "h < 24" "m < 60" "s < 60"
  shows "parse_hh_mm_ss_ff (digits 2 h @ '':'' @ digits 2 m @ '':'' @ digits 2 s)
         = Some (h, m, s, 0)"
proof -
  from assms have h: "h < 10 ^ 2" and m: "m < 10 ^ 2" and s: "s < 10 ^ 2" by auto
  show ?thesis
    unfolding parse_hh_mm_ss_ff_def
    by (simp add: nth_append parse_int_digits[OF _ h] parse_int_digits[OF _ m]
          parse_int_digits[OF _ s])
qed

lemma time_part_fraction:
  assumes "h < 24" "m < 60" "s < 60" "u < 1000000"
  shows "parse_hh_mm_ss_ff
           (digits 2 h @ '':'' @ digits 2 m @ '':'' @ digits 2 s @ ''.'' @ digits 6 u)
         = Some (h, m, s, u)"
proof -
  from assms have h: "h < 10 ^ 2" and m: "m < 10 ^ 2" and s: "s < 10 ^ 2" and u: "u < 10 ^ 6"
    by auto
  show ?thesis
    unfolding parse_hh_mm_ss_ff_def
    by (simp add: nth_append parse_int_digits[OF _ h] parse_int_digits[OF _ m]
          parse_int_digits[OF _ s] parse_int_digits[OF _ u])
qed

lemma fromisoformat_isoformat_naive:
  assumes "valid_datetime t"
  shows "fromisoformat_naive (isoformat_naive t) = Inr t"
proof -
  let ?D = "digits 4 (year t) @ ''-'' @ digits 2 (month t) @ ''-'' @ digits 2 (day t)"
  let ?T = "digits 2 (hour t) @ '':'' @ digits 2 (minute t) @ '':'' @ digits 2 (second t) @
     (if microsecond t = 0 then [] else ''.'' @ digits 6 (microsecond t))"
  have iso: "isoformat_naive t = ?D @ ''T'' @ ?T" by (simp add: isoformat_naive_def)
  have lenD: "length ?D = 10" by simp
  have tk: "take 10 (isoformat_naive t) = ?D" unfolding iso using lenD by simp
  have dr: "drop 11 (isoformat_naive t) = ?T" unfolding iso using lenD by simp
  have len: "length (isoformat_naive t) \<noteq> 10" unfolding iso by simp
  from assms have b: "hour t < 24" "minute t < 60" "second t < 60" "microsecond t < 1000000"
    by (auto simp: valid_datetime_def)
  have tm: "parse_hh_mm_ss_ff ?T = Some (hour t, minute t, second t, microsecond t)"
    using time_part_whole[OF b(1,2,3)] time_part_fraction[OF b]
    by (cases "microsecond t = 0") simp_all
  have p1: "parse_isoformat_date (take 10 (isoformat_naive t)) = Some (year t, month t, day t)"
    by (simp only: tk date_part[OF assms])
  have p2: "parse_hh_mm_ss_ff (drop 11 (isoformat_naive t))
            = Some (hour t, minute t, second t, microsecond t)"
    by (simp only: dr tm)
  show ?thesis
    unfolding fromisoformat_naive_def p1 p2 using len assms by (cases t) (simp add: Let_def)
qed

lemma reads_back_naive: "valid_datetime t \<Longrightarrow> reads_back naive_libs t"
  by (simp add: reads_back_def naive_libs_def fromisoformat_isoformat_naive)

lemma naive_libs_simps:
  "isoformat naive_libs = isoformat_naive"
  "fromisoformat naive_libs = fromisoformat_naive"
  "dumps naive_libs d = d"
  "loads naive_libs = Inr"
  "empty_text naive_libs = []"
  by (simp_all add: naive_libs_def)

lemma valid_stamp0: "valid_datetime stamp0"
  by (simp add: valid_datetime_def stamp0_def days_in_month_def)

lemma valid_stamp1: "valid_datetime stamp1"
  by (simp add: valid_datetime_def stamp1_def days_in_month_def is_leap_def)

lemma reads_back_stamp0: "reads_back naive_libs stamp0"
  by (rule reads_back_naive[OF valid_stamp0])

lemma reads_back_stamp1: "reads_back naive_libs stamp1"
  by (rule reads_back_naive[OF valid_stamp1])

section \<open>Escaping of resource identifiers\<close>

lemma replace_roundtrip:
  "CHR ''-'' \<notin> set s \<Longrightarrow> replace CHR ''-'' CHR ''/'' (replace CHR ''/'' CHR ''-'' s) = s"
  by (induction s) (auto simp: replace_def)

lemma no_dash_after_unescape: "CHR ''-'' \<notin> set (replace CHR ''-'' CHR ''/'' s)"
  by (auto simp: replace_def)

lemma escape_inj:
  assumes "CHR ''-'' \<notin> set a" "CHR ''-'' \<notin> set b"
    and "replace CHR ''/'' CHR ''-'' a = replace CHR ''/'' CHR ''-'' b"
  shows "a = b"
  using assms replace_roundtrip by metis

lemma escape_unescape: 
  "CHR ''/'' \<notin> set s \<Longrightarrow> replace CHR ''/'' CHR ''-'' (replace CHR ''-'' CHR ''/'' s) = s"
  by (induction s) (auto simp: replace_def)

lemma no_slash_after_escape: "CHR ''/'' \<notin> set (replace CHR ''/'' CHR ''-'' s)"
  by (auto simp: replace_def)

lemma unescape_inj:
  assumes "CHR ''/'' \<notin> set a" "CHR ''/'' \<notin> set b"
    and "replace CHR ''-'' CHR ''/'' a = replace CHR ''-'' CHR ''/'' b"
  shows "a = b"
  using assms escape_unescape by metis

text \<open>
  Claim C1, as stated: for every resource identifier, unescaping the escaped identifier
  gives the identifier back. It fails for an identifier that contains \<^verbatim>\<open>-\<close>: the
  identifier \<^verbatim>\<open>a-b\<close> is written as the key \<^verbatim>\<open>a-b\<close> and read back as \<^verbatim>\<open>a/b\<close>.
\<close>

theorem unescape_escape_counterexample:
  "replace CHR ''-'' CHR ''/'' (replace CHR ''/'' CHR ''-'' ''a-b'') \<noteq> ''a-b''"
  by (simp add: replace_def)

text \<open>
  Claim C1, amended: unescaping the escaped form of a resource identifier returns the
  identifier exactly when the identifier contains no \<^verbatim>\<open>-\<close>; identifiers may contain
  \<^verbatim>\<open>/\<close> freely.
\<close>

theorem unescape_escape_iff:
  "(replace CHR ''-'' CHR ''/'' (replace CHR ''/'' CHR ''-'' resource_id) = resource_id)
   = (CHR ''-'' \<notin> set resource_id)"
proof
  assume "replace CHR ''-'' CHR ''/'' (replace CHR ''/'' CHR ''-'' resource_id) = resource_id"
  then show "CHR ''-'' \<notin> set resource_id"
    using no_dash_after_unescape[of "replace CHR ''/'' CHR ''-'' resource_id"] by simp
next
  assume "CHR ''-'' \<notin> set resource_id"
  then show "replace CHR ''-'' CHR ''/'' (replace CHR ''/'' CHR ''-'' resource_id) = resource_id"
    by (rule replace_roundtrip)
qed

theorem unescape_escape_iff_witness:
  "replace CHR ''-'' CHR ''/'' (replace CHR ''/'' CHR ''-'' ''Stack/Nested/Fn'') = ''Stack/Nested/Fn''"
  using unescape_escape_iff[of "''Stack/Nested/Fn''"] by simp

section \<open>Encoding and decoding a state\<close>

lemma update_fresh: "k \<notin> fst ` set al \<Longrightarrow> AList.update k v al = al @ [(k, v)]"
  by (induction al) auto

lemma set_update_subset: "set (AList.update k v al) \<subseteq> insert (k, v) (set al)"
  by (induction al) auto

lemma HASH_neq_SYNC_TIME [simp]: "HASH \<noteq> SYNC_TIME" "SYNC_TIME \<noteq> HASH"
  by (simp_all add: HASH_def SYNC_TIME_def)

lemma SYNC_STATE_neq_RESOURCE_SYNC_STATES [simp]:
  "SYNC_STATE \<noteq> RESOURCE_SYNC_STATES" "RESOURCE_SYNC_STATES \<noteq> SYNC_STATE"
  by (simp_all add: SYNC_STATE_def RESOURCE_SYNC_STATES_def)

lemma encode_resource_entry:
  assumes "map_of states k = Some r" "hash_value r \<noteq> None"
  shows "encode_resource lib states k tbl
         = Inr (AList.update (fst (toml_entry lib (k, r))) (snd (toml_entry lib (k, r))) tbl)"
  using assms by (auto simp: encode_resource_def toml_entry_def Let_def)

lemma encode_loop:
  assumes "distinct (map fst states)"
    and "set ps \<subseteq> set states"
    and "\<forall>p\<in>set ps. hash_value (snd p) \<noteq> None"
    and "distinct (map (\<lambda>p. fst (toml_entry lib p)) ps)"
    and "fst ` set tbl \<inter> (\<lambda>p. fst (toml_entry lib p)) ` set ps = {}"
  shows "for_each (encode_resource lib states) (map fst ps) tbl = Inr (tbl @ map (toml_entry lib) ps)"
  using assms(2-)
proof (induction ps arbitrary: tbl)
  case Nil
  then show ?case by simp
next
  case (Cons p ps)
  obtain k r where p: "p = (k, r)" by (cases p)
  from Cons.prems(1) p have "(k, r) \<in> set states" by simp
  with assms(1) have m: "map_of states k = Some r" by simp
  from Cons.prems(2) p have h: "hash_value r \<noteq> None" by simp
  from Cons.prems(4) p have fresh: "fst (toml_entry lib (k, r)) \<notin> fst ` set tbl" by auto
  have step: "encode_resource lib states k tbl = Inr (tbl @ [toml_entry lib (k, r)])"
    using encode_resource_entry[OF m h, where lib=lib and tbl=tbl] update_fresh[OF fresh] by simp
  have "for_each (encode_resource lib states) (map fst ps) (tbl @ [toml_entry lib (k, r)])
        = Inr ((tbl @ [toml_entry lib (k, r)]) @ map (toml_entry lib) ps)"
  proof (rule Cons.IH)
    show "set ps \<subseteq> set states" using Cons.prems(1) by simp
    show "\<forall>p\<in>set ps. hash_value (snd p) \<noteq> None" using Cons.prems(2) by simp
    show "distinct (map (\<lambda>p. fst (toml_entry lib p)) ps)" using Cons.prems(3) by simp
    show "fst ` set (tbl @ [toml_entry lib (k, r)]) \<inter> (\<lambda>p. fst (toml_entry lib p)) ` set ps = {}"
      using Cons.prems(3,4) p by auto
  qed
  with step p show ?case by simp
qed

lemma decode_resource_entry:
  assumes "map_of tbl (fst (toml_entry lib (k, r))) = Some (snd (toml_entry lib (k, r)))"
    and "reads_back lib (sync_time r)" and "CHR ''-'' \<notin> set k"
  shows "decode_resource lib tbl (fst (toml_entry lib (k, r))) acc = Inr (AList.update k r acc)"
  using assms
  by (cases r; cases "hash_value r")
     (auto simp: decode_resource_def toml_entry_def py_get_def reads_back_def
        replace_roundtrip)

lemma decode_loop:
  assumes "distinct (map fst tbl)"
    and "toml_entry lib ` set ps \<subseteq> set tbl"
    and "\<forall>p\<in>set ps. reads_back lib (sync_time (snd p)) \<and> CHR ''-'' \<notin> set (fst p)"
    and "distinct (map fst ps)"
    and "fst ` set acc \<inter> fst ` set ps = {}"
  shows "for_each (decode_resource lib tbl) (map (\<lambda>p. fst (toml_entry lib p)) ps) acc = Inr (acc @ ps)"
  using assms(2-)
proof (induction ps arbitrary: acc)
  case Nil
  then show ?case by simp
next
  case (Cons p ps)
  obtain k r where p: "p = (k, r)" by (cases p)
  from Cons.prems(1) p have "(fst (toml_entry lib (k, r)), snd (toml_entry lib (k, r))) \<in> set tbl"
    by simp
  with assms(1) have m: "map_of tbl (fst (toml_entry lib (k, r))) = Some (snd (toml_entry lib (k, r)))"
    by simp
  from Cons.prems(2) p have v: "reads_back lib (sync_time r)" and d: "CHR ''-'' \<notin> set k"
    by simp_all
  from Cons.prems(4) p have fresh: "k \<notin> fst ` set acc" by auto
  have step: "decode_resource lib tbl (fst (toml_entry lib (k, r))) acc = Inr (acc @ [(k, r)])"
    using decode_resource_entry[OF m v d] update_fresh[OF fresh] by simp
  have "for_each (decode_resource lib tbl) (map (\<lambda>p. fst (toml_entry lib p)) ps) (acc @ [(k, r)])
        = Inr ((acc @ [(k, r)]) @ ps)"
  proof (rule Cons.IH)
    show "toml_entry lib ` set ps \<subseteq> set tbl" using Cons.prems(1) by simp
    show "\<forall>p\<in>set ps. reads_back lib (sync_time (snd p)) \<and> CHR ''-'' \<notin> set (fst p)"
      using Cons.prems(2) by simp
    show "distinct (map fst ps)" using Cons.prems(3) by simp
    show "fst ` set (acc @ [(k, r)]) \<inter> fst ` set ps = {}"
      using Cons.prems(3,4) p by auto
  qed
  with step p show ?case by simp
qed

lemma distinct_escaped:
  assumes "distinct (map fst ps)" "\<forall>p\<in>set ps. CHR ''-'' \<notin> set (fst p)"
  shows "distinct (map (\<lambda>p. fst (toml_entry lib p)) ps)"
proof -
  have "inj_on (replace CHR ''/'' CHR ''-'') (set (map fst ps))"
    using assms(2) by (auto intro!: inj_onI escape_inj)
  with assms(1) have "distinct (map (replace CHR ''/'' CHR ''-'') (map fst ps))"
    by (rule distinct_map[THEN iffD2, OF conjI])
  moreover have "map (\<lambda>p. fst (toml_entry lib p)) ps
                 = map (replace CHR ''/'' CHR ''-'') (map fst ps)"
    by (simp add: toml_entry_def)
  ultimately show ?thesis by (simp only:)
qed

lemma encode_good:
  assumes "distinct (map fst states)"
    and "\<forall>p\<in>set states. CHR ''-'' \<notin> set (fst p) \<and> hash_value (snd p) \<noteq> None"
  shows "for_each (encode_resource lib states) (map fst states) [] = Inr (map (toml_entry lib) states)"
  using encode_loop[OF assms(1), where ps=states and tbl="[]" and lib=lib]
    distinct_escaped[OF assms(1), where lib=lib] assms(2)
  by simp

lemma decode_good:
  assumes "distinct (map fst states)"
    and "\<forall>p\<in>set states. CHR ''-'' \<notin> set (fst p) \<and> reads_back lib (sync_time (snd p))"
  shows "for_each (decode_resource lib (map (toml_entry lib) states))
           (map fst (map (toml_entry lib) states)) [] = Inr states"
proof -
  have d: "distinct (map fst (map (toml_entry lib) states))"
    using distinct_escaped[OF assms(1)] assms(2) by (simp add: comp_def)
  have "for_each (decode_resource lib (map (toml_entry lib) states))
          (map (\<lambda>p. fst (toml_entry lib p)) states) [] = Inr ([] @ states)"
    by (rule decode_loop[OF d]) (use assms in auto)
  then show ?thesis by (simp add: comp_def)
qed

lemma encode_document_of:
  assumes "distinct (map fst (resource_sync_states S))"
    and "\<forall>p\<in>set (resource_sync_states S).
           CHR ''-'' \<notin> set (fst p) \<and> hash_value (snd p) \<noteq> None"
  shows "sync_state_to_toml_document lib S = Inr (document_of lib S)"
  using encode_good[OF assms, where lib=lib]
  by (simp add: sync_state_to_toml_document_def document_of_def)

lemma decode_document_of:
  assumes "distinct (map fst (resource_sync_states S))"
    and "\<forall>p\<in>set (resource_sync_states S).
           CHR ''-'' \<notin> set (fst p) \<and> reads_back lib (sync_time (snd p))"
  shows "toml_document_to_sync_state lib (document_of lib S) =
           Inr (Some \<lparr>dependency_layer = Some (TBool (dependency_layer S)),
                      resource_sync_states = resource_sync_states S\<rparr>)"
  using decode_good[OF assms]
  by (cases "resource_sync_states S = []")
     (simp_all add: toml_document_to_sync_state_def document_of_def py_get_def)

text \<open>
  Claim C2, as stated: for every state, decoding the encoded state gives back the same
  resource records. It fails for a state with a record under an identifier that contains
  \<^verbatim>\<open>-\<close>: the state with the single identifier \<^verbatim>\<open>a-b\<close> is encoded and decoded
  without error, and the decoded state has a record for \<^verbatim>\<open>a/b\<close> and none for
  \<^verbatim>\<open>a-b\<close>.
\<close>

theorem decode_encode_counterexample:
  "(case sync_state_to_toml_document naive_libs
           \<lparr>dependency_layer = False,
             resource_sync_states =
               [(''a-b'', \<lparr>hash_value = Some (TStr ''h''), sync_time = stamp0\<rparr>)]\<rparr> of
      Inl e \<Rightarrow> False
    | Inr doc \<Rightarrow>
        (case toml_document_to_sync_state naive_libs doc of
           Inr (Some st) \<Rightarrow>
             map_of (resource_sync_states st) ''a-b'' = None \<and>
             map_of (resource_sync_states st) ''a/b''
               = Some \<lparr>hash_value = Some (TStr ''h''), sync_time = stamp0\<rparr>
         | _ \<Rightarrow> False))"
  by (simp add: sync_state_to_toml_document_def encode_resource_def
        toml_document_to_sync_state_def decode_resource_def py_get_def replace_def
        naive_libs_simps fromisoformat_isoformat_naive[OF valid_stamp0]
        SYNC_STATE_def RESOURCE_SYNC_STATES_def HASH_def SYNC_TIME_def DEPENDENCY_LAYER_def)

text \<open>
  Claim C2, amended: for every state whose resource identifiers contain no \<^verbatim>\<open>-\<close>
  (they may contain \<^verbatim>\<open>/\<close>), with any number of records (none included), every hash
  present (any string, in particular) and either flag, encoding succeeds and decoding the
  encoded document yields exactly the same resource records, identifier by identifier,
  with the same hash and the same timestamp, together with the flag of the state. The
  first hypothesis holds of every Python dictionary of \<^verbatim>\<open>datetime\<close> records.
\<close>

theorem decode_encode_roundtrip:
  assumes "python_dict lib (resource_sync_states S)"
    and "\<forall>p\<in>set (resource_sync_states S).
           CHR ''-'' \<notin> set (fst p) \<and> hash_value (snd p) \<noteq> None"
  shows "\<exists>doc. sync_state_to_toml_document lib S = Inr doc \<and>
           toml_document_to_sync_state lib doc =
             Inr (Some \<lparr>dependency_layer = Some (TBool (dependency_layer S)),
                        resource_sync_states = resource_sync_states S\<rparr>)"
proof -
  from assms(1) have d: "distinct (map fst (resource_sync_states S))"
    and v: "\<forall>p\<in>set (resource_sync_states S). reads_back lib (sync_time (snd p))"
    by (simp_all add: python_dict_def list_all_iff)
  have "sync_state_to_toml_document lib S = Inr (document_of lib S)"
    by (rule encode_document_of[OF d assms(2)])
  moreover have "toml_document_to_sync_state lib (document_of lib S) =
           Inr (Some \<lparr>dependency_layer = Some (TBool (dependency_layer S)),
                      resource_sync_states = resource_sync_states S\<rparr>)"
    using assms(2) v by (intro decode_document_of[OF d]) simp
  ultimately show ?thesis by blast
qed

theorem decode_encode_roundtrip_witness:
  "\<exists>doc. sync_state_to_toml_document naive_libs
             \<lparr>dependency_layer = True,
               resource_sync_states =
                 [(''Stack/Fn'', \<lparr>hash_value = Some (TStr ''abc''), sync_time = stamp1\<rparr>),
                  (''Api'', \<lparr>hash_value = Some (TStr []), sync_time = stamp0\<rparr>)]\<rparr> = Inr doc \<and>
         toml_document_to_sync_state naive_libs doc =
           Inr (Some \<lparr>dependency_layer = Some (TBool True),
                      resource_sync_states =
                        [(''Stack/Fn'', \<lparr>hash_value = Some (TStr ''abc''), sync_time = stamp1\<rparr>),
                         (''Api'', \<lparr>hash_value = Some (TStr []), sync_time = stamp0\<rparr>)]\<rparr>)"
  using decode_encode_roundtrip[where lib=naive_libs and S=
      "\<lparr>dependency_layer = True,
        resource_sync_states =
          [(''Stack/Fn'', \<lparr>hash_value = Some (TStr ''abc''), sync_time = stamp1\<rparr>),
           (''Api'', \<lparr>hash_value = Some (TStr []), sync_time = stamp0\<rparr>)]\<rparr>"]
  by (simp add: python_dict_def reads_back_stamp0 reads_back_stamp1)

section \<open>Unfolding rules for concrete inputs\<close>

lemmas store_defs =
  SyncContext_init_def new_dict_def SyncContext_enter_def SyncContext_read_def
  SyncContext_read_body_def SyncContext_write_def SyncContext_exit_def
  update_resource_sync_state_def SyncState_update_resource_sync_state_def
  get_resource_latest_sync_hash_def SyncContext_cleanup_build_folders_def
  rmtree_if_exists_def is_under_def joinpath_def parent_def DEFAULT_SYNC_STATE_FILE_NAME_def

lemmas example_defs =
  naive_libs_simps world0_def world1_def world2_def world3_def build0_def cache0_def deps0_def file0_def

lemmas encode_defs =
  sync_state_to_toml_document_def encode_resource_def replace_def

lemmas decode_defs =
  toml_document_to_sync_state_def decode_resource_def py_get_def
  SYNC_STATE_def RESOURCE_SYNC_STATES_def HASH_def SYNC_TIME_def DEPENDENCY_LAYER_def

section \<open>Decoding arbitrary documents\<close>

lemma decodable_entry_decodes:
  assumes "decodable_entry lib v" "map_of tbl k = Some v"
  shows "\<exists>r. decode_resource lib tbl k acc = Inr r"
proof (cases v)
  case (TTable ent)
  with assms(1) obtain s t where "map_of ent SYNC_TIME = Some (TStr s)" "fromisoformat lib s = Inr t"
    by (auto split: option.splits toml.splits sum.splits)
  with TTable assms(2) show ?thesis
    by (simp add: decode_resource_def py_get_def)
qed (use assms in simp_all)

lemma decode_loop_succeeds:
  assumes "\<forall>e\<in>set tbl. decodable_entry lib (snd e)" "set ks \<subseteq> fst ` set tbl"
  shows "\<exists>r. for_each (decode_resource lib tbl) ks acc = Inr r"
  using assms(2)
proof (induction ks arbitrary: acc)
  case Nil
  then show ?case by simp
next
  case (Cons k ks)
  from Cons.prems have "k \<in> fst ` set tbl" by simp
  then obtain v where m: "map_of tbl k = Some v"
    by (cases "map_of tbl k") (auto simp: map_of_eq_None_iff)
  then have "(k, v) \<in> set tbl" by (rule map_of_SomeD)
  with assms(1) have "decodable_entry lib v" by auto
  from decodable_entry_decodes[OF this m] obtain r where "decode_resource lib tbl k acc = Inr r"
    by blast
  moreover from Cons.IH Cons.prems obtain r' where "for_each (decode_resource lib tbl) ks r = Inr r'"
    by auto
  ultimately show ?case by simp
qed

lemma decode_resources_succeeds:
  assumes "decodable_resources lib v" "truthy (Some v)"
  shows "\<exists>r. decode_resources lib v = Inr r"
proof (cases v)
  case (TTable kvs)
  with assms(1) have "\<forall>e\<in>set kvs. decodable_entry lib (snd e)" by (simp add: list_all_iff)
  from decode_loop_succeeds[OF this, where ks="map fst kvs" and acc="[]"] TTable show ?thesis by simp
qed (use assms in simp_all)

lemma decode_None_iff:
  "(toml_document_to_sync_state lib doc = Inr None)
   = (\<not> truthy (map_of doc SYNC_STATE) \<and> \<not> truthy (map_of doc RESOURCE_SYNC_STATES))"
  by (cases "map_of doc RESOURCE_SYNC_STATES"; cases "map_of doc SYNC_STATE")
     (auto simp: toml_document_to_sync_state_def Let_def split: sum.splits)

lemma fromisoformat_yesterday: "fromisoformat_naive ''yesterday'' = Inl ValueError"
  by (simp add: fromisoformat_naive_def parse_isoformat_date_def)

lemma decode_yesterday:
  "toml_document_to_sync_state naive_libs
     [(RESOURCE_SYNC_STATES,
       TTable [(''Fn'', TTable [(HASH, TStr ''h''), (SYNC_TIME, TStr ''yesterday'')])])]
   = Inl ValueError"
  by (simp add: decode_defs naive_libs_simps fromisoformat_yesterday)

lemma decode_resource_Inr:
  assumes "decode_resource lib tbl k acc = Inr acc1"
  shows "\<exists>ent s t. map_of tbl k = Some (TTable ent) \<and> map_of ent SYNC_TIME = Some (TStr s) \<and>
           fromisoformat lib s = Inr t \<and>
           acc1 = AList.update (replace CHR ''-'' CHR ''/'' k)
                    \<lparr>hash_value = map_of ent HASH, sync_time = t\<rparr> acc"
  using assms
  by (auto simp: decode_resource_def py_get_def
           split: option.splits toml.splits sum.splits)

lemma decode_resource_Inr_record:
  assumes "decode_resource lib tbl k acc = Inr acc1"
  shows "\<exists>ent r. map_of tbl k = Some (TTable ent) \<and> decoded_record lib ent = Some r \<and>
           decodable_entry lib (TTable ent) \<and>
           acc1 = AList.update (replace CHR ''-'' CHR ''/'' k) r acc"
  using decode_resource_Inr[OF assms] by (auto simp: decoded_record_def)

lemma keys_update: "fst ` set (AList.update k v al) = insert k (fst ` set al)"
  by (induction al) auto

lemma decode_loop_result:
  assumes "for_each (decode_resource lib tbl) ks acc = Inr res"
  shows "fst ` set res = fst ` set acc \<union> replace CHR ''-'' CHR ''/'' ` set ks"
    and "(\<forall>p\<in>set acc. \<exists>k ent. map_of tbl k = Some (TTable ent) \<and>
             fst p = replace CHR ''-'' CHR ''/'' k \<and> decoded_record lib ent = Some (snd p))
         \<Longrightarrow> (\<forall>p\<in>set res. \<exists>k ent. map_of tbl k = Some (TTable ent) \<and>
             fst p = replace CHR ''-'' CHR ''/'' k \<and> decoded_record lib ent = Some (snd p))"
    and "\<forall>k\<in>set ks. \<exists>v. map_of tbl k = Some v \<and> decodable_entry lib v"
  using assms
proof (induction ks arbitrary: acc)
  case Nil
  { case 1 then show ?case by simp }
  { case 2 then show ?case by simp }
  { case 3 then show ?case by simp }
next
  case (Cons k ks)
  { case 1
    from 1 obtain acc1 where s: "decode_resource lib tbl k acc = Inr acc1"
      and rest: "for_each (decode_resource lib tbl) ks acc1 = Inr res"
      by (auto split: sum.splits)
    from decode_resource_Inr_record[OF s] obtain r where
      "acc1 = AList.update (replace CHR ''-'' CHR ''/'' k) r acc" by blast
    with Cons.IH(1)[OF rest] show ?case by (simp add: keys_update) }
  { case 2
    from 2(2) obtain acc1 where s: "decode_resource lib tbl k acc = Inr acc1"
      and rest: "for_each (decode_resource lib tbl) ks acc1 = Inr res"
      by (auto split: sum.splits)
    from decode_resource_Inr_record[OF s] obtain ent r where
      m: "map_of tbl k = Some (TTable ent)" "decoded_record lib ent = Some r"
      and a: "acc1 = AList.update (replace CHR ''-'' CHR ''/'' k) r acc" by blast
    have "\<forall>p\<in>set acc1. \<exists>k ent. map_of tbl k = Some (TTable ent) \<and>
             fst p = replace CHR ''-'' CHR ''/'' k \<and> decoded_record lib ent = Some (snd p)"
      using 2(1) m set_update_subset[of "replace CHR ''-'' CHR ''/'' k" r acc]
      unfolding a by fastforce
    from Cons.IH(2)[OF this rest] show ?case . }
  { case 3
    from 3 obtain acc1 where s: "decode_resource lib tbl k acc = Inr acc1"
      and rest: "for_each (decode_resource lib tbl) ks acc1 = Inr res"
      by (auto split: sum.splits)
    from decode_resource_Inr_record[OF s] Cons.IH(3)[OF rest] show ?case by auto }
qed

lemma decode_resources_returns_iff:
  assumes "distinct_keys v" "truthy (Some v)"
  shows "(\<exists>r. decode_resources lib v = Inr r) = decodable_resources lib v"
proof (cases v)
  case (TTable kvs)
  show ?thesis
  proof
    assume "\<exists>r. decode_resources lib v = Inr r"
    then obtain r where l: "for_each (decode_resource lib kvs) (map fst kvs) [] = Inr r"
      using TTable by auto
    have "\<forall>e\<in>set kvs. decodable_entry lib (snd e)"
    proof
      fix e assume e: "e \<in> set kvs"
      with assms(1) TTable have "map_of kvs (fst e) = Some (snd e)" by simp
      moreover from e have "fst e \<in> set (map fst kvs)" by simp
      ultimately show "decodable_entry lib (snd e)"
        using decode_loop_result(3)[OF l] by auto
    qed
    then show "decodable_resources lib v" using TTable by (simp add: list_all_iff)
  next
    assume "decodable_resources lib v"
    from decode_resources_succeeds[OF this assms(2)]
    show "\<exists>r. decode_resources lib v = Inr r" .
  qed
qed (use assms in simp_all)

lemma flag_section_returns_iff:
  assumes "truthy (Some v)"
  shows "(\<exists>r. py_get v DEPENDENCY_LAYER = Inr r) = decodable_flag_section v"
  using assms by (cases v) (simp_all add: py_get_def)

lemma py_get_decoded_flag:
  assumes "truthy (Some v)" "py_get v DEPENDENCY_LAYER = Inr dl"
  shows "dl = decoded_flag (Some v)"
  using assms by (cases v) (auto simp: py_get_def neq_Nil_conv)

lemma not_truthy_decoded_flag: "\<not> truthy v \<Longrightarrow> decoded_flag v = Some (TBool False)"
  by (cases v rule: decoded_flag.cases) simp_all

lemma not_truthy_decodable:
  "\<not> truthy (Some v) \<Longrightarrow> decodable_resources lib v"
  "\<not> truthy (Some v) \<Longrightarrow> decodable_flag_section v"
  by (cases v; simp)+

lemma not_truthy_entries:
  "\<not> truthy (map_of doc RESOURCE_SYNC_STATES) \<Longrightarrow> resource_entries doc = []"
  by (auto simp: resource_entries_def split: option.splits toml.splits)

text \<open>
  Claim C5, as stated: decoding never raises, whatever the document. It fails on an
  entry whose \<^verbatim>\<open>sync_time\<close> is the string \<^verbatim>\<open>yesterday\<close> (\<^verbatim>\<open>ValueError\<close>)
  and on an entry without \<^verbatim>\<open>sync_time\<close> (\<^verbatim>\<open>TypeError\<close>); the handler of
  \<^verbatim>\<open>_read\<close> lets both through, so entering the store raises as well.
\<close>

theorem decode_raises_counterexample:
  "toml_document_to_sync_state naive_libs
     [(RESOURCE_SYNC_STATES,
       TTable [(''Fn'', TTable [(HASH, TStr ''h''), (SYNC_TIME, TStr ''yesterday'')])])]
   = Inl ValueError \<and>
   toml_document_to_sync_state naive_libs
     [(RESOURCE_SYNC_STATES, TTable [(''Fn'', TTable [(HASH, TStr ''h'')])])]
   = Inl TypeError \<and>
   fst (SyncContext_enter naive_libs deps0
          (fst (SyncContext_init True build0 cache0 world2))
          (snd (SyncContext_init True build0 cache0 world2)))
   = Inl ValueError"
proof -
  have "toml_document_to_sync_state naive_libs
     [(RESOURCE_SYNC_STATES, TTable [(''Fn'', TTable [(HASH, TStr ''h'')])])]
   = Inl TypeError"
    by (simp add: decode_defs)
  moreover have "fst (SyncContext_enter naive_libs deps0
          (fst (SyncContext_init True build0 cache0 world2))
          (snd (SyncContext_init True build0 cache0 world2)))
   = Inl ValueError"
    by (simp add: store_defs example_defs decode_yesterday)
  ultimately show ?thesis using decode_yesterday by simp
qed

text \<open>
  Claim C5, amended: decoding returns normally (a state or null) exactly for the
  documents whose resource section is absent, falsy, or a table in which every entry is a
  table with a \<^verbatim>\<open>sync_time\<close> string that \<^verbatim>\<open>fromisoformat\<close> accepts, and whose flag
  section is absent, falsy, or a table; on every other document it raises. When it
  returns a state, the flag of the state is what the flag section holds under
  \<^verbatim>\<open>dependency_layer\<close> (\<^verbatim>\<open>None\<close> when the key is missing), and \<^verbatim>\<open>False\<close> when
  the section is missing or falsy; the identifiers of the state are the unescaped keys of
  the resource section; and every record of the state is the record of an entry: its hash
  is what the entry holds under \<^verbatim>\<open>hash\<close> (\<^verbatim>\<open>None\<close> when the key is missing), its
  time what \<^verbatim>\<open>fromisoformat\<close> reads from \<^verbatim>\<open>sync_time\<close>. The hypothesis holds of
  every document: the keys of a Python dictionary are distinct.
\<close>

theorem decode_returns_iff:
  assumes "case map_of doc RESOURCE_SYNC_STATES of None \<Rightarrow> True | Some v \<Rightarrow> distinct_keys v"
  shows "((\<exists>r. toml_document_to_sync_state lib doc = Inr r)
          = ((case map_of doc RESOURCE_SYNC_STATES of
                None \<Rightarrow> True | Some v \<Rightarrow> decodable_resources lib v) \<and>
             (case map_of doc SYNC_STATE of
                None \<Rightarrow> True | Some v \<Rightarrow> decodable_flag_section v))) \<and>
         (\<forall>st. toml_document_to_sync_state lib doc = Inr (Some st) \<longrightarrow>
            dependency_layer st = decoded_flag (map_of doc SYNC_STATE) \<and>
            fst ` set (resource_sync_states st)
              = replace CHR ''-'' CHR ''/'' ` fst ` set (resource_entries doc) \<and>
            (\<forall>p\<in>set (resource_sync_states st).
               \<exists>k ent. map_of (resource_entries doc) k = Some (TTable ent) \<and>
                        fst p = replace CHR ''-'' CHR ''/'' k \<and>
                        decoded_record lib ent = Some (snd p)))"
proof -
  let ?ss = "map_of doc SYNC_STATE"
  let ?rs = "case map_of doc RESOURCE_SYNC_STATES of None \<Rightarrow> TTable [] | Some v \<Rightarrow> v"
  let ?R = "if truthy (Some ?rs) then decode_resources lib ?rs else Inr []"
  let ?F = "case ?ss of None \<Rightarrow> Inr (Some (TBool False))
            | Some tbl \<Rightarrow> if truthy (Some tbl) then py_get tbl DEPENDENCY_LAYER
                          else Inr (Some (TBool False))"
  let ?CR = "case map_of doc RESOURCE_SYNC_STATES of
               None \<Rightarrow> True | Some v \<Rightarrow> decodable_resources lib v"
  let ?CF = "case ?ss of None \<Rightarrow> True | Some v \<Rightarrow> decodable_flag_section v"
  have tr: "truthy (Some ?rs) = truthy (map_of doc RESOURCE_SYNC_STATES)"
    by (cases "map_of doc RESOURCE_SYNC_STATES") simp_all
  have dk: "distinct_keys ?rs"
    using assms by (cases "map_of doc RESOURCE_SYNC_STATES") simp_all
  have R: "(\<exists>r. ?R = Inr r) = ?CR"
  proof (cases "truthy (Some ?rs)")
    case True
    then obtain v where v: "map_of doc RESOURCE_SYNC_STATES = Some v"
      by (cases "map_of doc RESOURCE_SYNC_STATES") auto
    with True dk decode_resources_returns_iff[of v lib] show ?thesis by simp
  next
    case False
    with not_truthy_decodable(1)[of ?rs lib] show ?thesis
      by (cases "map_of doc RESOURCE_SYNC_STATES") simp_all
  qed
  have F: "(\<exists>r. ?F = Inr r) = ?CF"
  proof (cases ?ss)
    case None
    then show ?thesis by simp
  next
    case (Some v)
    with flag_section_returns_iff[of v] not_truthy_decodable(2)[of v] show ?thesis
      by (cases "truthy (Some v)") auto
  qed
  have Fv: "\<And>dl. ?F = Inr dl \<Longrightarrow> dl = decoded_flag ?ss"
  proof -
    fix dl assume a: "?F = Inr dl"
    show "dl = decoded_flag ?ss"
    proof (cases ?ss)
      case None
      with a show ?thesis by simp
    next
      case (Some v)
      with a py_get_decoded_flag[of v dl] not_truthy_decoded_flag[of "Some v"] show ?thesis
        by (cases "truthy (Some v)") auto
    qed
  qed
  have unfold: "toml_document_to_sync_state lib doc =
      (if \<not> (truthy ?ss \<or> truthy (Some ?rs)) then Inr None
       else case ?R of Inl e \<Rightarrow> Inl e
            | Inr states \<Rightarrow>
                (case ?F of Inl e \<Rightarrow> Inl e
                 | Inr dl \<Rightarrow> Inr (Some \<lparr>dependency_layer = dl, resource_sync_states = states\<rparr>)))"
  proof (cases "doc = []")
    case True
    then show ?thesis by (simp add: toml_document_to_sync_state_def)
  next
    case False
    then show ?thesis by (simp add: toml_document_to_sync_state_def Let_def)
  qed
  have iff: "(\<exists>r. toml_document_to_sync_state lib doc = Inr r) = (?CR \<and> ?CF)"
  proof (cases "truthy ?ss \<or> truthy (Some ?rs)")
    case True
    then have "(\<exists>r. toml_document_to_sync_state lib doc = Inr r)
               = ((\<exists>r. ?R = Inr r) \<and> (\<exists>r. ?F = Inr r))"
      unfolding unfold by (auto split: sum.splits)
    with R F show ?thesis by simp
  next
    case False
    then have a: "\<not> truthy ?ss" and b: "\<not> truthy (Some ?rs)" by simp_all
    from b have ?CR using not_truthy_decodable(1)[of ?rs lib]
      by (cases "map_of doc RESOURCE_SYNC_STATES") simp_all
    moreover from a have ?CF using not_truthy_decodable(2)
      by (cases ?ss) auto
    moreover from False have "toml_document_to_sync_state lib doc = Inr None"
      unfolding unfold by simp
    ultimately show ?thesis by simp
  qed
  have content: "\<forall>st. toml_document_to_sync_state lib doc = Inr (Some st) \<longrightarrow>
            dependency_layer st = decoded_flag ?ss \<and>
            fst ` set (resource_sync_states st)
              = replace CHR ''-'' CHR ''/'' ` fst ` set (resource_entries doc) \<and>
            (\<forall>p\<in>set (resource_sync_states st).
               \<exists>k ent. map_of (resource_entries doc) k = Some (TTable ent) \<and>
                        fst p = replace CHR ''-'' CHR ''/'' k \<and>
                        decoded_record lib ent = Some (snd p))"
  proof (intro allI impI)
    fix st assume d: "toml_document_to_sync_state lib doc = Inr (Some st)"
    then obtain states dl where r: "?R = Inr states" and f: "?F = Inr dl"
      and st: "st = \<lparr>dependency_layer = dl, resource_sync_states = states\<rparr>"
      unfolding unfold by (auto split: if_splits sum.splits)
    have fl: "dependency_layer st = decoded_flag ?ss" using Fv[OF f] st by simp
    have rec: "fst ` set states = replace CHR ''-'' CHR ''/'' ` fst ` set (resource_entries doc) \<and>
            (\<forall>p\<in>set states.
               \<exists>k ent. map_of (resource_entries doc) k = Some (TTable ent) \<and>
                        fst p = replace CHR ''-'' CHR ''/'' k \<and>
                        decoded_record lib ent = Some (snd p))"
    proof (cases "truthy (Some ?rs)")
      case False
      with r tr have "states = []" "resource_entries doc = []"
        using not_truthy_entries[of doc] by simp_all
      then show ?thesis by simp
    next
      case True
      with r have dr: "decode_resources lib ?rs = Inr states" by simp
      then obtain kvs where k: "?rs = TTable kvs"
        by (cases ?rs) simp_all
      with True have "map_of doc RESOURCE_SYNC_STATES = Some (TTable kvs)"
        by (cases "map_of doc RESOURCE_SYNC_STATES") auto
      then have e: "resource_entries doc = kvs" by (simp add: resource_entries_def)
      from dr k have l: "for_each (decode_resource lib kvs) (map fst kvs) [] = Inr states"
        by simp
      from decode_loop_result(1)[OF l] decode_loop_result(2)[OF l] e show ?thesis
        by (simp add: image_image)
    qed
    from fl rec st show "dependency_layer st = decoded_flag ?ss \<and>
            fst ` set (resource_sync_states st)
              = replace CHR ''-'' CHR ''/'' ` fst ` set (resource_entries doc) \<and>
            (\<forall>p\<in>set (resource_sync_states st).
               \<exists>k ent. map_of (resource_entries doc) k = Some (TTable ent) \<and>
                        fst p = replace CHR ''-'' CHR ''/'' k \<and>
                        decoded_record lib ent = Some (snd p))"
      by simp
  qed
  from iff content show ?thesis by blast
qed

text \<open>Claim C5, amended, at two concrete inputs: a document without the flag section
  whose only entry lacks the \<^verbatim>\<open>hash\<close> key is decoded; a document whose entry has the
  \<^verbatim>\<open>sync_time\<close> \<^verbatim>\<open>yesterday\<close> is not.\<close>

theorem decode_returns_iff_witness:
  "(\<exists>r. toml_document_to_sync_state naive_libs
           [(RESOURCE_SYNC_STATES,
             TTable [(''Fn'', TTable [(SYNC_TIME, TStr (isoformat_naive stamp0))])])] = Inr r) \<and>
   \<not> (\<exists>r. toml_document_to_sync_state naive_libs
           [(SYNC_STATE, TTable [(DEPENDENCY_LAYER, TBool True)]),
            (RESOURCE_SYNC_STATES,
             TTable [(''Fn'', TTable [(HASH, TStr ''h''), (SYNC_TIME, TStr ''yesterday'')])])]
         = Inr r)"
proof -
  have a: "\<exists>r. toml_document_to_sync_state naive_libs
           [(RESOURCE_SYNC_STATES,
             TTable [(''Fn'', TTable [(SYNC_TIME, TStr (isoformat_naive stamp0))])])] = Inr r"
    using decode_returns_iff[where lib=naive_libs and doc=
      "[(RESOURCE_SYNC_STATES,
         TTable [(''Fn'', TTable [(SYNC_TIME, TStr (isoformat_naive stamp0))])])]"]
    by (simp add: naive_libs_simps fromisoformat_isoformat_naive[OF valid_stamp0]
          SYNC_STATE_def RESOURCE_SYNC_STATES_def)
  have b: "\<not> (\<exists>r. toml_document_to_sync_state naive_libs
           [(SYNC_STATE, TTable [(DEPENDENCY_LAYER, TBool True)]),
            (RESOURCE_SYNC_STATES,
             TTable [(''Fn'', TTable [(HASH, TStr ''h''), (SYNC_TIME, TStr ''yesterday'')])])]
         = Inr r)"
    using decode_returns_iff[where lib=naive_libs and doc=
      "[(SYNC_STATE, TTable [(DEPENDENCY_LAYER, TBool True)]),
        (RESOURCE_SYNC_STATES,
         TTable [(''Fn'', TTable [(HASH, TStr ''h''), (SYNC_TIME, TStr ''yesterday'')])])]"]
    by (simp add: naive_libs_simps fromisoformat_yesterday
          SYNC_STATE_def RESOURCE_SYNC_STATES_def HASH_def SYNC_TIME_def)
  from a b show ?thesis by blast
qed

section \<open>What the encoder writes\<close>

lemma encode_loop_entries:
  assumes "for_each (encode_resource lib states) ks tbl = Inr tbl'"
    and "\<forall>e\<in>set tbl. \<exists>p\<in>set states. snd e = snd (toml_entry lib p)"
  shows "\<forall>e\<in>set tbl'. \<exists>p\<in>set states. snd e = snd (toml_entry lib p)"
  using assms
proof (induction ks arbitrary: tbl)
  case Nil
  then show ?case by simp
next
  case (Cons k ks)
  from Cons.prems(1) obtain t where s: "encode_resource lib states k tbl = Inr t"
    and r: "for_each (encode_resource lib states) ks t = Inr tbl'"
    by (auto split: sum.splits)
  from s obtain rs h where m: "map_of states k = Some rs" and h: "hash_value rs = Some h"
    and t: "t = AList.update (fst (toml_entry lib (k, rs))) (snd (toml_entry lib (k, rs))) tbl"
    by (cases "map_of states k"; cases "hash_value (the (map_of states k))")
       (auto simp: encode_resource_def toml_entry_def Let_def)
  from m have "(k, rs) \<in> set states" by (rule map_of_SomeD)
  then have "\<forall>e\<in>set t. \<exists>p\<in>set states. snd e = snd (toml_entry lib p)"
    using Cons.prems(2) set_update_subset[of "fst (toml_entry lib (k, rs))" "snd (toml_entry lib (k, rs))" tbl]
    unfolding t by fastforce
  from Cons.IH[OF r this] show ?case .
qed

lemma decodable_toml_entry:
  "reads_back lib (sync_time (snd p)) \<Longrightarrow> decodable_entry lib (snd (toml_entry lib p))"
  by (cases "hash_value (snd p)") (simp_all add: toml_entry_def reads_back_def)

lemma encode_document_shape:
  assumes "sync_state_to_toml_document lib S = Inr doc"
  shows "\<exists>tbl. doc = [(SYNC_STATE, TTable [(DEPENDENCY_LAYER, TBool (dependency_layer S))]),
                      (RESOURCE_SYNC_STATES, TTable tbl)] \<and>
               (\<forall>e\<in>set tbl. \<exists>p\<in>set (resource_sync_states S). snd e = snd (toml_entry lib p))"
proof -
  from assms obtain tbl where
    l: "for_each (encode_resource lib (resource_sync_states S)) (map fst (resource_sync_states S)) [] = Inr tbl"
    and d: "doc = [(SYNC_STATE, TTable [(DEPENDENCY_LAYER, TBool (dependency_layer S))]),
                   (RESOURCE_SYNC_STATES, TTable tbl)]"
    by (auto simp: sync_state_to_toml_document_def split: sum.splits)
  from encode_loop_entries[OF l] d show ?thesis by simp
qed

lemma encoded_document_decodes:
  assumes "sync_state_to_toml_document lib S = Inr doc"
    and "\<forall>p\<in>set (resource_sync_states S). reads_back lib (sync_time (snd p))"
  shows "\<exists>st. toml_document_to_sync_state lib doc = Inr (Some st)"
proof -
  from encode_document_shape[OF assms(1)] obtain tbl where
    d: "doc = [(SYNC_STATE, TTable [(DEPENDENCY_LAYER, TBool (dependency_layer S))]),
               (RESOURCE_SYNC_STATES, TTable tbl)]"
    and e: "\<forall>e\<in>set tbl. \<exists>p\<in>set (resource_sync_states S). snd e = snd (toml_entry lib p)"
    by blast
  from e assms(2) have "\<forall>e\<in>set tbl. decodable_entry lib (snd e)"
    using decodable_toml_entry by fastforce
  from decode_loop_succeeds[OF this, where ks="map fst tbl" and acc="[]"]
  obtain r where "for_each (decode_resource lib tbl) (map fst tbl) [] = Inr r" by auto
  with d show ?thesis
    by (simp add: toml_document_to_sync_state_def py_get_def)
qed

lemma encode_succeeds:
  assumes "\<forall>p\<in>set states. hash_value (snd p) \<noteq> None" "set ks \<subseteq> fst ` set states"
  shows "\<exists>tbl'. for_each (encode_resource lib states) ks tbl = Inr tbl'"
  using assms(2)
proof (induction ks arbitrary: tbl)
  case Nil
  then show ?case by simp
next
  case (Cons k ks)
  from Cons.prems have "k \<in> fst ` set states" by simp
  then obtain r where m: "map_of states k = Some r"
    by (cases "map_of states k") (auto simp: map_of_eq_None_iff)
  then have "(k, r) \<in> set states" by (rule map_of_SomeD)
  with assms(1) have "hash_value r \<noteq> None" by auto
  from encode_resource_entry[OF m this] obtain t where "encode_resource lib states k tbl = Inr t"
    by blast
  moreover from Cons.IH Cons.prems obtain t' where "for_each (encode_resource lib states) ks t = Inr t'"
    by auto
  ultimately show ?case by simp
qed

lemma sync_state_to_toml_document_succeeds:
  assumes "\<forall>p\<in>set (resource_sync_states S). hash_value (snd p) \<noteq> None"
  shows "\<exists>doc. sync_state_to_toml_document lib S = Inr doc"
  using encode_succeeds[OF assms, where ks="map fst (resource_sync_states S)" and tbl="[]"
      and lib=lib]
  by (auto simp: sync_state_to_toml_document_def)

lemma for_each_append:
  "for_each body (xs @ ys) s =
     (case for_each body xs s of Inl e \<Rightarrow> Inl e | Inr s' \<Rightarrow> for_each body ys s')"
  by (induction xs arbitrary: s) (auto split: sum.splits)

lemma update_split:
  "AList.update k v d =
     takeWhile (\<lambda>p. fst p \<noteq> k) d @ (k, v) # drop 1 (dropWhile (\<lambda>p. fst p \<noteq> k) d)"
  by (induction d) auto

lemma encode_resource_Inr:
  assumes "encode_resource lib states k t = Inr t1"
  shows "\<exists>r. map_of states k = Some r \<and> hash_value r \<noteq> None \<and>
             t1 = AList.update (fst (toml_entry lib (k, r))) (snd (toml_entry lib (k, r))) t"
  using assms
  by (cases "map_of states k"; cases "hash_value (the (map_of states k))")
     (auto simp: encode_resource_def toml_entry_def Let_def)

lemma encode_loop_keys:
  assumes "for_each (encode_resource lib states) ks t = Inr t'"
    and "\<forall>k\<in>fst ` set t. CHR ''/'' \<notin> set k"
  shows "\<forall>k\<in>fst ` set t'. CHR ''/'' \<notin> set k"
  using assms
proof (induction ks arbitrary: t)
  case Nil
  then show ?case by simp
next
  case (Cons k ks)
  from Cons.prems(1) obtain t1 where s: "encode_resource lib states k t = Inr t1"
    and r: "for_each (encode_resource lib states) ks t1 = Inr t'"
    by (auto split: sum.splits)
  from encode_resource_Inr[OF s] obtain rs where
    t1: "t1 = AList.update (fst (toml_entry lib (k, rs))) (snd (toml_entry lib (k, rs))) t" by blast
  have "fst (toml_entry lib (k, rs)) = replace CHR ''/'' CHR ''-'' k" by (simp add: toml_entry_def)
  with Cons.prems(2) no_slash_after_escape[of k]
    set_update_subset[of "fst (toml_entry lib (k, rs))" "snd (toml_entry lib (k, rs))" t]
  have "\<forall>k\<in>fst ` set t1. CHR ''/'' \<notin> set k" unfolding t1 by fastforce
  from Cons.IH[OF r this] show ?case .
qed

lemma snd_toml_entry: "snd (toml_entry lib (k, r)) = snd (toml_entry lib (k', r))"
  by (simp add: toml_entry_def)

lemma encode_loop_map_of:
  assumes "for_each (encode_resource lib states) (map fst ps) t = Inr t'"
    and "set ps \<subseteq> set states" and "distinct (map fst states)"
  shows "map_of t' key =
           (case filter (\<lambda>p. replace CHR ''/'' CHR ''-'' (fst p) = key) ps of
              [] \<Rightarrow> map_of t key
            | q # qs \<Rightarrow> Some (snd (toml_entry lib (last (q # qs)))))"
  using assms(1,2)
proof (induction ps arbitrary: t)
  case Nil
  then show ?case by simp
next
  case (Cons p ps)
  obtain k r where p: "p = (k, r)" by (cases p)
  from Cons.prems(1) p obtain t1 where s: "encode_resource lib states k t = Inr t1"
    and rest: "for_each (encode_resource lib states) (map fst ps) t1 = Inr t'"
    by (auto split: sum.splits)
  from Cons.prems(2) p assms(3) have "map_of states k = Some r" by simp
  with encode_resource_Inr[OF s]
  have t1: "t1 = AList.update (replace CHR ''/'' CHR ''-'' k) (snd (toml_entry lib (k, r))) t"
    by (auto simp: toml_entry_def)
  from Cons.prems(2) have "set ps \<subseteq> set states" by simp
  note IH = Cons.IH[OF rest this]
  show ?case
  proof (cases "replace CHR ''/'' CHR ''-'' k = key")
    case True
    with t1 have "map_of t1 key = Some (snd (toml_entry lib (k, r)))"
      by (simp add: AList.update_conv')
    with IH True p show ?thesis
      by (cases "filter (\<lambda>p. replace CHR ''/'' CHR ''-'' (fst p) = key) ps") simp_all
  next
    case False
    with t1 have "map_of t1 key = map_of t key" by (simp add: AList.update_conv')
    with IH False p show ?thesis
      by (cases "filter (\<lambda>p. replace CHR ''/'' CHR ''-'' (fst p) = key) ps") simp_all
  qed
qed

lemma encode_map_of:
  assumes "for_each (encode_resource lib d) (map fst d) [] = Inr tbl"
    and "distinct (map fst d)"
  shows "map_of tbl (replace CHR ''/'' CHR ''-'' resource_id)
         = map_option (\<lambda>r. snd (toml_entry lib (resource_id, r))) (surviving_record resource_id d)"
proof -
  let ?f = "filter (\<lambda>p. replace CHR ''/'' CHR ''-'' (fst p)
                        = replace CHR ''/'' CHR ''-'' resource_id) d"
  show ?thesis
  proof (cases ?f)
    case Nil
    with encode_loop_map_of[OF assms(1) subset_refl assms(2),
           of "replace CHR ''/'' CHR ''-'' resource_id"]
    show ?thesis by (simp add: surviving_record_def)
  next
    case (Cons q qs)
    obtain k r where l: "last (q # qs) = (k, r)" by (cases "last (q # qs)")
    with Cons encode_loop_map_of[OF assms(1) subset_refl assms(2),
           of "replace CHR ''/'' CHR ''-'' resource_id"]
      snd_toml_entry[of lib k r resource_id]
    show ?thesis by (simp add: surviving_record_def)
  qed
qed

lemma surviving_record_in:
  "surviving_record resource_id d = Some r \<Longrightarrow> r \<in> snd ` set d"
proof -
  assume a: "surviving_record resource_id d = Some r"
  let ?f = "filter (\<lambda>p. replace CHR ''/'' CHR ''-'' (fst p)
                        = replace CHR ''/'' CHR ''-'' resource_id) d"
  from a obtain q qs where f: "?f = q # qs" and r: "r = snd (last (q # qs))"
    by (auto simp: surviving_record_def split: list.splits)
  have "last (q # qs) \<in> set ?f" unfolding f by (rule last_in_set) simp
  then have "last (q # qs) \<in> set d" by simp
  with r show ?thesis by auto
qed

lemma decode_loop_at:
  assumes "for_each (decode_resource lib tbl) ks acc = Inr res"
    and "\<forall>k\<in>set ks. CHR ''/'' \<notin> set k" and "CHR ''/'' \<notin> set key"
    and "map_of tbl key = Some (snd (toml_entry lib (i, r)))"
    and "reads_back lib (sync_time r)"
    and "key \<in> set ks \<or> map_of acc (replace CHR ''-'' CHR ''/'' key) = Some r"
  shows "map_of res (replace CHR ''-'' CHR ''/'' key) = Some r"
  using assms(1,2,6)
proof (induction ks arbitrary: acc)
  case Nil
  then show ?case by simp
next
  case (Cons k ks)
  from Cons.prems(1) obtain acc1 where s: "decode_resource lib tbl k acc = Inr acc1"
    and rest: "for_each (decode_resource lib tbl) ks acc1 = Inr res"
    by (auto split: sum.splits)
  from decode_resource_Inr[OF s] obtain ent s' t where
    m: "map_of tbl k = Some (TTable ent)" and st: "map_of ent SYNC_TIME = Some (TStr s')"
    and f: "fromisoformat lib s' = Inr t"
    and a1: "acc1 = AList.update (replace CHR ''-'' CHR ''/'' k)
                    \<lparr>hash_value = map_of ent HASH, sync_time = t\<rparr> acc"
    by blast
  have "key \<in> set ks \<or> map_of acc1 (replace CHR ''-'' CHR ''/'' key) = Some r"
  proof (cases "k = key")
    case True
    with m assms(4) have e: "TTable ent = snd (toml_entry lib (i, r))" by simp
    then have "map_of ent HASH = hash_value r" and "s' = isoformat lib (sync_time r)"
      using st by (cases "hash_value r"; simp add: toml_entry_def)+
    with f assms(5) have "\<lparr>hash_value = map_of ent HASH, sync_time = t\<rparr> = r"
      by (cases r) (simp add: reads_back_def)
    with a1 True show ?thesis by (simp add: AList.update_conv')
  next
    case False
    with Cons.prems(2) assms(3) unescape_inj[of k key]
    have "replace CHR ''-'' CHR ''/'' k \<noteq> replace CHR ''-'' CHR ''/'' key" by auto
    with a1 have "map_of acc1 (replace CHR ''-'' CHR ''/'' key)
                  = map_of acc (replace CHR ''-'' CHR ''/'' key)"
      by (simp add: AList.update_conv')
    with Cons.prems(3) False show ?thesis by auto
  qed
  from Cons.IH[OF rest _ this] Cons.prems(2) show ?case by simp
qed

lemma decode_encode_pointwise:
  assumes enc: "sync_state_to_toml_document lib S = Inr doc"
    and pd: "python_dict lib (resource_sync_states S)"
  shows "\<exists>st. toml_document_to_sync_state lib doc = Inr (Some st) \<and>
           dependency_layer st = Some (TBool (dependency_layer S)) \<and>
           (\<forall>resource_id. map_of (resource_sync_states st) resource_id =
              (if CHR ''-'' \<in> set resource_id then None
               else surviving_record resource_id (resource_sync_states S)))"
proof -
  let ?d = "resource_sync_states S"
  from pd have dist: "distinct (map fst ?d)"
    and val: "\<forall>p\<in>set ?d. reads_back lib (sync_time (snd p))"
    by (simp_all add: python_dict_def list_all_iff)
  from enc obtain tbl where
    loop: "for_each (encode_resource lib ?d) (map fst ?d) [] = Inr tbl"
    and doc: "doc = [(SYNC_STATE, TTable [(DEPENDENCY_LAYER, TBool (dependency_layer S))]),
                     (RESOURCE_SYNC_STATES, TTable tbl)]"
    by (auto simp: sync_state_to_toml_document_def split: sum.splits)
  have keys: "\<forall>k\<in>set (map fst tbl). CHR ''/'' \<notin> set k"
    using encode_loop_keys[OF loop] by simp
  from encode_loop_entries[OF loop] val
  have "\<forall>e\<in>set tbl. decodable_entry lib (snd e)"
    using decodable_toml_entry by fastforce
  from decode_loop_succeeds[OF this, where ks="map fst tbl" and acc="[]"]
  obtain res where dl: "for_each (decode_resource lib tbl) (map fst tbl) [] = Inr res" by auto
  have dec: "toml_document_to_sync_state lib doc
             = Inr (Some \<lparr>dependency_layer = Some (TBool (dependency_layer S)),
                          resource_sync_states = res\<rparr>)"
    unfolding doc using dl
    by (cases "tbl = []") (simp_all add: toml_document_to_sync_state_def py_get_def)
  have rk: "fst ` set res = replace CHR ''-'' CHR ''/'' ` set (map fst tbl)"
    using decode_loop_result(1)[OF dl] by simp
  have pt: "map_of res resource_id =
              (if CHR ''-'' \<in> set resource_id then None
               else surviving_record resource_id ?d)" for resource_id
  proof (cases "CHR ''-'' \<in> set resource_id")
    case True
    have "resource_id \<notin> fst ` set res"
      unfolding rk using True no_dash_after_unescape by auto
    then have "map_of res resource_id = None" by (simp add: map_of_eq_None_iff)
    with True show ?thesis by simp
  next
    case False
    let ?key = "replace CHR ''/'' CHR ''-'' resource_id"
    have at: "map_of tbl ?key
         = map_option (\<lambda>r. snd (toml_entry lib (resource_id, r))) (surviving_record resource_id ?d)"
      by (rule encode_map_of[OF loop dist])
    show ?thesis
    proof (cases "surviving_record resource_id ?d")
      case None
      with at have "?key \<notin> set (map fst tbl)" by (simp add: map_of_eq_None_iff)
      have "resource_id \<notin> fst ` set res"
      proof
        assume "resource_id \<in> fst ` set res"
        with rk obtain k where k: "k \<in> set (map fst tbl)"
          and e: "resource_id = replace CHR ''-'' CHR ''/'' k" by auto
        from keys k have "CHR ''/'' \<notin> set k" by auto
        with e have "?key = k" by (simp add: escape_unescape)
        with k \<open>?key \<notin> set (map fst tbl)\<close> show False by simp
      qed
      then have "map_of res resource_id = None" by (simp add: map_of_eq_None_iff)
      with None False show ?thesis by simp
    next
      case (Some r)
      with at have m: "map_of tbl ?key = Some (snd (toml_entry lib (resource_id, r)))" by simp
      then have key_in: "?key \<in> set (map fst tbl)"
        by (metis map_of_eq_None_iff option.distinct(1) set_map)
      from surviving_record_in[OF Some] val have rb: "reads_back lib (sync_time r)" by auto
      have "map_of res (replace CHR ''-'' CHR ''/'' ?key) = Some r"
        by (rule decode_loop_at[OF dl keys no_slash_after_escape m rb]) (use key_in in simp)
      with False Some show ?thesis by (simp add: replace_roundtrip)
    qed
  qed
  from dec pt show ?thesis by simp
qed

lemma surviving_record_updated:
  assumes "\<forall>k\<in>set (inserted_after resource_id d).
             replace CHR ''/'' CHR ''-'' k \<noteq> replace CHR ''/'' CHR ''-'' resource_id"
  shows "surviving_record resource_id (AList.update resource_id r d) = Some r"
proof -
  let ?P = "\<lambda>p. replace CHR ''/'' CHR ''-'' (fst p) = replace CHR ''/'' CHR ''-'' resource_id"
  let ?pre = "takeWhile (\<lambda>p. fst p \<noteq> resource_id) d"
  let ?post = "drop 1 (dropWhile (\<lambda>p. fst p \<noteq> resource_id) d)"
  from assms have "filter ?P ?post = []"
    by (auto simp: inserted_after_def filter_empty_conv)
  then have "filter ?P (AList.update resource_id r d) = filter ?P ?pre @ [(resource_id, r)]"
    by (subst update_split) simp
  then show ?thesis
    by (cases "filter ?P ?pre") (simp_all add: surviving_record_def)
qed

section \<open>Constructing and entering the store\<close>

lemma init_simps:
  assumes "SyncContext_init dep_layer build cache w = (self, w1)"
  shows "current_state self = \<lparr>dependency_layer = dep_layer, resource_sync_states = next_addr w\<rparr>"
    and "previous_state self = None"
    and "build_dir self = build" and "cache_dir self = cache"
    and "file_path self = joinpath (parent build) DEFAULT_SYNC_STATE_FILE_NAME"
    and "w1 = w\<lparr>heap := (heap w)(next_addr w := []), next_addr := Suc (next_addr w)\<rparr>"
  using assms by (auto simp: SyncContext_init_def new_dict_def)

lemma read_frame:
  assumes "SyncContext_read lib self w = (r, self', w')"
  shows "dependency_layer (current_state self') = dependency_layer (current_state self)"
    and "build_dir self' = build_dir self" and "cache_dir self' = cache_dir self"
    and "file_path self' = file_path self"
    and "files w' = files w" and "dirs w' = dirs w" and "rmtree_calls w' = rmtree_calls w"
    and "unreadable w' = unreadable w" and "unwritable w' = unwritable w"
  using assms
  by (auto simp: SyncContext_read_def SyncContext_read_body_def new_dict_def
           split: if_splits option.splits sum.splits prod.splits)

lemma read_cases:
  assumes "SyncContext_read lib self w = (r, self', w')"
  shows "(previous_state self' = previous_state self \<and> current_state self' = current_state self \<and> w' = w)
       \<or> (previous_state self' = None \<and> current_state self' = current_state self \<and> w' = w \<and> r = Inr ())
       \<or> (\<exists>text doc st. file_path self \<notin> unreadable w \<and> files w (file_path self) = Some text \<and>
             loads lib text = Inr doc \<and> toml_document_to_sync_state lib doc = Inr (Some st) \<and> r = Inr () \<and>
             previous_state self' = Some \<lparr>dependency_layer = dependency_layer st,
                                          resource_sync_states = next_addr w\<rparr> \<and>
             current_state self' = (current_state self)\<lparr>resource_sync_states := next_addr w\<rparr> \<and>
             w' = w\<lparr>heap := (heap w)(next_addr w := resource_sync_states st),
                    next_addr := Suc (next_addr w)\<rparr>)"
  using assms
  by (auto simp: SyncContext_read_def SyncContext_read_body_def new_dict_def
           split: if_splits option.splits sum.splits prod.splits)

lemma read_loaded:
  assumes "file_path self \<notin> unreadable w" "files w (file_path self) = Some content"
    and "loads lib content = Inr doc" "toml_document_to_sync_state lib doc = Inr (Some st)"
  shows "fst (SyncContext_read lib self w) = Inr ()"
    and "previous_state (fst (snd (SyncContext_read lib self w)))
         = Some \<lparr>dependency_layer = dependency_layer st, resource_sync_states = next_addr w\<rparr>"
  using assms
  by (simp_all add: SyncContext_read_def SyncContext_read_body_def new_dict_def)

lemma decode_state0:
  "toml_document_to_sync_state naive_libs (document_of naive_libs state0)
   = Inr (Some \<lparr>dependency_layer = Some (TBool True),
                resource_sync_states = [(''Stack/Fn'', record0)]\<rparr>)"
  using decode_document_of[where S=state0 and lib=naive_libs]
  by (simp add: state0_def record0_def reads_back_stamp0)

lemma enter_self:
  assumes "SyncContext_enter lib deps self w = (r, self', w')"
  shows "self' = fst (snd (SyncContext_read lib self w))"
  using assms
  by (cases "SyncContext_read lib self w")
     (auto simp: SyncContext_enter_def split: sum.splits option.splits if_splits)

lemma enter_aliases:
  assumes "SyncContext_init dep_layer build cache w = (self, w1)"
    and "SyncContext_enter lib deps self w1 = (r, self', w2)"
    and "previous_state self' = Some prev"
  shows "resource_sync_states (current_state self') = resource_sync_states prev"
proof -
  obtain r1 s1 v1 where rd: "SyncContext_read lib self w1 = (r1, s1, v1)"
    by (cases "SyncContext_read lib self w1") auto
  from enter_self[OF assms(2)] rd have s: "self' = s1" by simp
  from init_simps(2)[OF assms(1)] read_cases[OF rd] assms(3) s show ?thesis by auto
qed

lemma is_under_refl [simp]: "is_under p p"
  by (simp add: is_under_def)

lemma cleanup_effect:
  "rmtree_calls (SyncContext_cleanup_build_folders deps self w)
     = rmtree_calls w @ [build_dir self, cache_dir self, deps]"
  "build_dir self \<notin> dirs (SyncContext_cleanup_build_folders deps self w)"
  "cache_dir self \<notin> dirs (SyncContext_cleanup_build_folders deps self w)"
  "deps \<notin> dirs (SyncContext_cleanup_build_folders deps self w)"
  "heap (SyncContext_cleanup_build_folders deps self w) = heap w"
  by (simp_all add: SyncContext_cleanup_build_folders_def rmtree_if_exists_def)

text \<open>
  Claim C7: a store constructed with either flag and entered while the state file is
  absent, or cannot be opened or read, returns normally; its previous state is
  \<^verbatim>\<open>None\<close>, its current state has no resource records and keeps the flag, and no
  directory is removed.
\<close>

theorem start_without_previous_state:
  assumes "SyncContext_init dep_layer build cache w = (self, w1)"
    and "file_path self \<in> unreadable w \<or> files w (file_path self) = None"
  shows "SyncContext_enter lib deps self w1 = (Inr (), self, w1) \<and>
         previous_state self = None \<and>
         heap w1 (resource_sync_states (current_state self)) = [] \<and>
         dependency_layer (current_state self) = dep_layer \<and>
         rmtree_calls w1 = rmtree_calls w \<and> dirs w1 = dirs w \<and> files w1 = files w"
  using assms
  by (auto simp: SyncContext_init_def new_dict_def SyncContext_enter_def SyncContext_read_def
        SyncContext_read_body_def)

text \<open>Claim C7 at a concrete input: a store entered in a world without files.\<close>

theorem start_without_previous_state_witness:
  "(case SyncContext_init True build0 cache0 world0 of
      (self, w1) \<Rightarrow>
        SyncContext_enter naive_libs deps0 self w1 = (Inr (), self, w1) \<and>
        previous_state self = None \<and>
        heap w1 (resource_sync_states (current_state self)) = [] \<and>
        rmtree_calls w1 = [])"
  using start_without_previous_state[of True build0 cache0 world0
      "fst (SyncContext_init True build0 cache0 world0)"
      "snd (SyncContext_init True build0 cache0 world0)" naive_libs deps0]
  by (simp add: case_prod_beta) (simp add: store_defs example_defs)

text \<open>
  Claim C8: entering the store never changes the flag of the current state. For every flag
  given to the constructor and every content of the state file, the flag of the current
  state after entering is the flag given to the constructor; what is taken over from a
  loaded previous state is its dictionary of resource records, and nothing is taken over
  when none was loaded.
\<close>

theorem start_keeps_flag:
  assumes "SyncContext_init dep_layer build cache w = (self, w1)"
    and "SyncContext_enter lib deps self w1 = (r, self', w2)"
  shows "dependency_layer (current_state self') = dep_layer \<and>
         (case previous_state self' of
            None \<Rightarrow> resource_sync_states (current_state self')
                      = resource_sync_states (current_state self)
          | Some prev \<Rightarrow> resource_sync_states (current_state self')
                          = resource_sync_states prev)"
proof -
  obtain r1 s1 v1 where rd: "SyncContext_read lib self w1 = (r1, s1, v1)"
    by (cases "SyncContext_read lib self w1") auto
  from assms(2) rd have s: "self' = s1"
    by (auto simp: SyncContext_enter_def split: sum.splits option.splits if_splits)
  from init_simps[OF assms(1)] have c: "dependency_layer (current_state self) = dep_layer"
    and p: "previous_state self = None" by simp_all
  from read_frame(1)[OF rd] c s have "dependency_layer (current_state self') = dep_layer" by simp
  moreover from read_cases[OF rd] p s
  have "(case previous_state self' of
            None \<Rightarrow> resource_sync_states (current_state self')
                      = resource_sync_states (current_state self)
          | Some prev \<Rightarrow> resource_sync_states (current_state self')
                          = resource_sync_states prev)"
    by auto
  ultimately show ?thesis by simp
qed

text \<open>Claim C8 at a concrete input: the file was written with the flag set, the store is
  constructed with the flag cleared.\<close>

theorem start_keeps_flag_witness:
  "(case SyncContext_init False build0 cache0 world1 of
      (self, w1) \<Rightarrow>
        (case SyncContext_enter naive_libs deps0 self w1 of
           (r, self', w2) \<Rightarrow>
             dependency_layer (current_state self') = False \<and>
             map_option dependency_layer (previous_state self') = Some (Some (TBool True)) \<and>
             map_option resource_sync_states (previous_state self')
               = Some (resource_sync_states (current_state self'))))"
  using start_keeps_flag[of False build0 cache0 world1
      "fst (SyncContext_init False build0 cache0 world1)"
      "snd (SyncContext_init False build0 cache0 world1)" naive_libs deps0
      "fst (SyncContext_enter naive_libs deps0 (fst (SyncContext_init False build0 cache0 world1))
              (snd (SyncContext_init False build0 cache0 world1)))"
      "fst (snd (SyncContext_enter naive_libs deps0 (fst (SyncContext_init False build0 cache0 world1))
              (snd (SyncContext_init False build0 cache0 world1))))"
      "snd (snd (SyncContext_enter naive_libs deps0 (fst (SyncContext_init False build0 cache0 world1))
              (snd (SyncContext_init False build0 cache0 world1))))"]
  by (simp add: case_prod_beta) (simp add: store_defs example_defs decode_state0)

text \<open>
  Claim C6: let a store be constructed and entered. If a previous state was loaded and
  its flag differs (Python's \<^verbatim>\<open>!=\<close>) from the flag given to the constructor, then
  entering returns normally after exactly three calls of \<^verbatim>\<open>rmtree_if_exists\<close>, on the
  build directory, the cache directory and the dependencies directory in this order, none
  of which exists afterwards. If the flags are equal, or no previous state was loaded, no
  call is made and the directories are as before. Whenever a previous state was loaded,
  the current state holds the records decoded from the file, and every query answers from
  them, cleanup or not.
\<close>

theorem cleanup_on_mode_switch:
  assumes "SyncContext_init dep_layer build cache w = (self, w1)"
    and "SyncContext_enter lib deps self w1 = (r, self', w2)"
  shows "(case previous_state self' of
            None \<Rightarrow> rmtree_calls w2 = rmtree_calls w \<and> dirs w2 = dirs w
          | Some prev \<Rightarrow>
              (if py_eq_bool (dependency_layer prev) dep_layer
               then rmtree_calls w2 = rmtree_calls w \<and> dirs w2 = dirs w
               else rmtree_calls w2 = rmtree_calls w @ [build, cache, deps] \<and>
                    build \<notin> dirs w2 \<and> cache \<notin> dirs w2 \<and> deps \<notin> dirs w2) \<and>
              r = Inr () \<and>
              resource_sync_states (current_state self') = resource_sync_states prev \<and>
              (\<exists>content doc st.
                 files w (file_path self) = Some content \<and> loads lib content = Inr doc \<and>
                 toml_document_to_sync_state lib doc = Inr (Some st) \<and>
                 dependency_layer prev = dependency_layer st \<and>
                 heap w2 (resource_sync_states (current_state self')) = resource_sync_states st \<and>
                 (\<forall>resource_id.
                    fst (get_resource_latest_sync_hash resource_id self' w2)
                      = Inr (case map_of (resource_sync_states st) resource_id of
                               None \<Rightarrow> None
                             | Some rs \<Rightarrow> hash_value rs))))"
proof -
  obtain r1 s1 v1 where rd: "SyncContext_read lib self w1 = (r1, s1, v1)"
    by (cases "SyncContext_read lib self w1") auto
  note i = init_simps[OF assms(1)]
  note f = read_frame[OF rd]
  from f(1) i(1) have dl: "dependency_layer (current_state s1) = dep_layer" by simp
  from f(2,3) i(3,4) have bc: "build_dir s1 = build" "cache_dir s1 = cache" by simp_all
  from f(6,7) i(6) have v1: "rmtree_calls v1 = rmtree_calls w" "dirs v1 = dirs w" by simp_all
  from assms(2) rd have s: "self' = s1"
    by (auto simp: SyncContext_enter_def split: sum.splits option.splits if_splits)
  show ?thesis
  proof (cases "previous_state s1")
    case None
    with assms(2) rd have "w2 = v1"
      by (auto simp: SyncContext_enter_def split: sum.splits)
    with None s v1 show ?thesis by simp
  next
    case (Some prev)
    with read_cases[OF rd] i(2) obtain content doc st where
      ld: "files w1 (file_path self) = Some content" "loads lib content = Inr doc"
          "toml_document_to_sync_state lib doc = Inr (Some st)" "r1 = Inr ()"
      and pv: "previous_state s1 = Some \<lparr>dependency_layer = dependency_layer st,
                                          resource_sync_states = next_addr w1\<rparr>"
      and cs: "current_state s1 = (current_state self)\<lparr>resource_sync_states := next_addr w1\<rparr>"
      and hv: "v1 = w1\<lparr>heap := (heap w1)(next_addr w1 := resource_sync_states st),
                       next_addr := Suc (next_addr w1)\<rparr>"
      by auto
    from pv Some have prev: "prev = \<lparr>dependency_layer = dependency_layer st,
                                     resource_sync_states = next_addr w1\<rparr>" by simp
    from ld(1) i(6) have fl: "files w (file_path self) = Some content" by simp
    have w2: "w2 = (if py_eq_bool (dependency_layer prev) dep_layer then v1
                    else SyncContext_cleanup_build_folders deps s1 v1)"
      and r: "r = Inr ()"
      using assms(2) rd Some ld(4) dl by (auto simp: SyncContext_enter_def split: if_splits)
    have hp: "heap w2 (resource_sync_states (current_state s1)) = resource_sync_states st"
      using w2 cs hv by (simp add: cleanup_effect)
    have q: "\<forall>resource_id.
                    fst (get_resource_latest_sync_hash resource_id s1 w2)
                      = Inr (case map_of (resource_sync_states st) resource_id of
                               None \<Rightarrow> None
                             | Some rs \<Rightarrow> hash_value rs)"
      using hp by (auto simp: get_resource_latest_sync_hash_def split: option.splits)
    have c: "(if py_eq_bool (dependency_layer prev) dep_layer
               then rmtree_calls w2 = rmtree_calls w \<and> dirs w2 = dirs w
               else rmtree_calls w2 = rmtree_calls w @ [build, cache, deps] \<and>
                    build \<notin> dirs w2 \<and> cache \<notin> dirs w2 \<and> deps \<notin> dirs w2)"
      using w2 v1 bc cleanup_effect[where deps=deps and self=s1 and w=v1] by auto
    have a: "resource_sync_states (current_state s1) = resource_sync_states prev"
      using cs prev by simp
    from c r a fl ld(2,3) prev hp q Some s show ?thesis
      by (simp only: option.case) (intro conjI exI[of _ content] exI[of _ doc] exI[of _ st]; simp)
  qed
qed

text \<open>Claim C6 at a concrete input: the file was written with the flag set, the store is
  constructed with the flag cleared.\<close>

theorem cleanup_on_mode_switch_witness:
  "(case SyncContext_init False build0 cache0 world1 of
      (self, w1) \<Rightarrow>
        (case SyncContext_enter naive_libs deps0 self w1 of
           (r, self', w2) \<Rightarrow>
             r = Inr () \<and> rmtree_calls w2 = [build0, cache0, deps0] \<and>
             build0 \<notin> dirs w2 \<and> cache0 \<notin> dirs w2 \<and> deps0 \<notin> dirs w2 \<and>
             fst (get_resource_latest_sync_hash ''Stack/Fn'' self' w2) = Inr (Some (TStr ''h0''))))"
proof -
  let ?i = "SyncContext_init False build0 cache0 world1"
  let ?e = "SyncContext_enter naive_libs deps0 (fst ?i) (snd ?i)"
  have p: "previous_state (fst (snd ?e))
           = Some \<lparr>dependency_layer = Some (TBool True), resource_sync_states = Suc 0\<rparr>"
    by (simp add: store_defs example_defs decode_state0)
  have f: "files world1 (file_path (fst ?i)) = Some (document_of naive_libs state0)"
    by (simp add: store_defs example_defs)
  have c: "rmtree_calls world1 = []"
    by (simp add: example_defs)
  from cleanup_on_mode_switch[where dep_layer=False and build=build0 and cache=cache0
      and w=world1 and self="fst ?i" and ?w1.0="snd ?i" and lib=naive_libs and deps=deps0
      and r="fst ?e" and self'="fst (snd ?e)" and ?w2.0="snd (snd ?e)"]
  have "fst ?e = Inr () \<and> rmtree_calls (snd (snd ?e)) = [build0, cache0, deps0] \<and>
        build0 \<notin> dirs (snd (snd ?e)) \<and> cache0 \<notin> dirs (snd (snd ?e)) \<and>
        deps0 \<notin> dirs (snd (snd ?e)) \<and>
        fst (get_resource_latest_sync_hash ''Stack/Fn'' (fst (snd ?e)) (snd (snd ?e)))
          = Inr (Some (TStr ''h0''))"
    using p f c decode_state0 by (auto simp: naive_libs_def record0_def)
  then show ?thesis by (simp add: case_prod_beta)
qed

section \<open>Queries, updates and the state file\<close>

text \<open>
  Claim C9: \<^verbatim>\<open>get_resource_latest_sync_hash\<close> never raises; it returns the hash of the
  record that the current state holds for the identifier, and \<^verbatim>\<open>None\<close> when it holds
  none; it returns the store and the world (heap, files, directories) as it found them.
  In particular, after \<^verbatim>\<open>update_resource_sync_state\<close> for an identifier and a hash, the
  query for that identifier returns that hash.
\<close>

theorem get_resource_latest_sync_hash_result:
  "get_resource_latest_sync_hash resource_id self w
     = (Inr (case map_of (heap w (resource_sync_states (current_state self))) resource_id of
               None \<Rightarrow> None
             | Some resource_sync_state \<Rightarrow> hash_value resource_sync_state), self, w)
   \<and> (case update_resource_sync_state lib utcnow resource_id hash_val self w of
        (r, self', w') \<Rightarrow>
          get_resource_latest_sync_hash resource_id self' w' = (Inr (Some (TStr hash_val)), self', w'))"
  by (auto simp: get_resource_latest_sync_hash_def update_resource_sync_state_def
        SyncState_update_resource_sync_state_def SyncContext_write_def Let_def
        AList.update_conv' split: option.splits prod.splits sum.splits if_splits)

text \<open>Claim C9 at a concrete input: a miss on a new store, a hit after an update.\<close>

theorem get_resource_latest_sync_hash_result_witness:
  "(case SyncContext_init True build0 cache0 world0 of
      (self, w1) \<Rightarrow>
        get_resource_latest_sync_hash ''Fn'' self w1 = (Inr None, self, w1) \<and>
        (case update_resource_sync_state naive_libs stamp0 ''Fn'' ''h'' self w1 of
           (r, self', w2) \<Rightarrow>
             get_resource_latest_sync_hash ''Fn'' self' w2 = (Inr (Some (TStr ''h'')), self', w2)))"
proof -
  let ?i = "SyncContext_init True build0 cache0 world0"
  have d: "heap (snd ?i) (resource_sync_states (current_state (fst ?i))) = []"
    by (simp add: store_defs example_defs)
  from get_resource_latest_sync_hash_result[where resource_id="''Fn''" and self="fst ?i"
      and w="snd ?i" and lib=naive_libs and utcnow=stamp0 and hash_val="''h''"]
  show ?thesis by (simp add: d case_prod_beta)
qed

lemma write_cases:
  assumes "SyncContext_write lib self w = (Inr (), w')"
  shows "\<exists>doc. file_path self \<notin> unwritable w \<and>
           sync_state_to_toml_document lib
             \<lparr>dependency_layer = dependency_layer (current_state self),
               resource_sync_states = heap w (resource_sync_states (current_state self))\<rparr> = Inr doc \<and>
           w' = w\<lparr>files := (files w)(file_path self \<mapsto> dumps lib doc)\<rparr>"
  using assms
  by (auto simp: SyncContext_write_def Let_def split: if_splits sum.splits)

lemma write_succeeds:
  assumes "file_path self \<notin> unwritable w"
    and "sync_state_to_toml_document lib
             \<lparr>dependency_layer = dependency_layer (current_state self),
               resource_sync_states = heap w (resource_sync_states (current_state self))\<rparr> = Inr doc"
  shows "SyncContext_write lib self w
         = (Inr (), w\<lparr>files := (files w)(file_path self \<mapsto> dumps lib doc)\<rparr>)"
  using assms by (simp add: SyncContext_write_def Let_def)

lemma roundtrips_naive_libs: "roundtrips naive_libs"
  by (simp add: roundtrips_def naive_libs_def)

text \<open>
  Claim C4, as stated: after a previous state has been loaded, an update leaves the
  resource records of the previous state unchanged. It fails: \<^verbatim>\<open>_read\<close> makes both
  states hold the same dictionary, so an update of the current state is an update of the
  previous state. Here the file holds hash \<^verbatim>\<open>h0\<close> for \<^verbatim>\<open>Stack/Fn\<close>; after the
  update the previous state holds \<^verbatim>\<open>h1\<close>.
\<close>

theorem previous_state_changes_counterexample:
  "(case SyncContext_init True build0 cache0 world1 of
      (self, w1) \<Rightarrow>
        (case SyncContext_enter naive_libs deps0 self w1 of
           (r1, self1, w2) \<Rightarrow>
             (case update_resource_sync_state naive_libs stamp1 ''Stack/Fn'' ''h1'' self1 w2 of
                (r2, self2, w3) \<Rightarrow>
                  r1 = Inr () \<and> r2 = Inr () \<and>
                  map_option (\<lambda>prev. heap w2 (resource_sync_states prev)) (previous_state self1)
                    = Some [(''Stack/Fn'', \<lparr>hash_value = Some (TStr ''h0''), sync_time = stamp0\<rparr>)] \<and>
                  map_option (\<lambda>prev. heap w3 (resource_sync_states prev)) (previous_state self2)
                    = Some [(''Stack/Fn'', \<lparr>hash_value = Some (TStr ''h1''), sync_time = stamp1\<rparr>)])))"
  by (simp add: store_defs example_defs decode_state0 record0_def encode_defs)

text \<open>
  Claim C4, amended: after a previous state has been loaded, an update (whether or not
  its write succeeds) leaves the previous state's flag and its reference to its
  dictionary unchanged. That dictionary is the one the current state holds: after
  \<^verbatim>\<open>update_resource_sync_state(id, h)\<close> the previous state's records map \<^verbatim>\<open>id\<close> to
  the new record with hash \<^verbatim>\<open>h\<close>, and every other identifier as before.
\<close>

theorem update_shares_previous_records:
  assumes "SyncContext_init dep_layer build cache w = (self, w1)"
    and "SyncContext_enter lib deps self w1 = (r1, self1, w2)"
    and "previous_state self1 = Some prev"
    and "update_resource_sync_state lib utcnow resource_id hash_val self1 w2 = (r2, self2, w3)"
  shows "previous_state self2 = Some prev \<and>
         heap w3 (resource_sync_states prev)
           = heap w3 (resource_sync_states (current_state self2)) \<and>
         map_of (heap w3 (resource_sync_states prev)) resource_id
           = Some \<lparr>hash_value = Some (TStr hash_val), sync_time = utcnow\<rparr> \<and>
         (\<forall>k. k \<noteq> resource_id \<longrightarrow>
            map_of (heap w3 (resource_sync_states prev)) k
              = map_of (heap w2 (resource_sync_states prev)) k)"
proof -
  have a: "resource_sync_states (current_state self1) = resource_sync_states prev"
    by (rule enter_aliases[OF assms(1,2,3)])
  from assms(4) have s: "self2 = self1"
    and h: "heap w3 = (heap w2)(resource_sync_states (current_state self1) :=
              SyncState_update_resource_sync_state utcnow resource_id hash_val
                (heap w2 (resource_sync_states (current_state self1))))"
    by (auto simp: update_resource_sync_state_def SyncContext_write_def Let_def
             split: if_splits sum.splits prod.splits)
  from s a h assms(3) show ?thesis
    by (simp add: SyncState_update_resource_sync_state_def AList.update_conv')
qed

text \<open>Claim C4, amended, at a concrete input: a new identifier is added after a load.\<close>

theorem update_shares_previous_records_witness:
  "(case SyncContext_init True build0 cache0 world1 of
      (self, w1) \<Rightarrow>
        (case SyncContext_enter naive_libs deps0 self w1 of
           (r1, self1, w2) \<Rightarrow>
             (case update_resource_sync_state naive_libs stamp1 ''Api'' ''h1'' self1 w2 of
                (r2, self2, w3) \<Rightarrow>
                  previous_state self2
                    = Some \<lparr>dependency_layer = Some (TBool True), resource_sync_states = Suc 0\<rparr> \<and>
                  map_of (heap w3 (Suc 0)) ''Api''
                    = Some \<lparr>hash_value = Some (TStr ''h1''), sync_time = stamp1\<rparr> \<and>
                  map_of (heap w3 (Suc 0)) ''Stack/Fn'' = Some record0)))"
proof -
  let ?i = "SyncContext_init True build0 cache0 world1"
  let ?e = "SyncContext_enter naive_libs deps0 (fst ?i) (snd ?i)"
  let ?u = "update_resource_sync_state naive_libs stamp1 ''Api'' ''h1'' (fst (snd ?e)) (snd (snd ?e))"
  let ?prev = "\<lparr>dependency_layer = Some (TBool True :: datetime toml),
                resource_sync_states = Suc 0\<rparr>"
  have p: "previous_state (fst (snd ?e)) = Some ?prev"
    by (simp add: store_defs example_defs decode_state0)
  have h: "map_of (heap (snd (snd ?e)) (Suc 0)) ''Stack/Fn'' = Some record0"
    by (simp add: store_defs example_defs decode_state0)
  have t: "previous_state (fst (snd ?u)) = Some ?prev \<and>
        heap (snd (snd ?u)) (resource_sync_states ?prev)
          = heap (snd (snd ?u)) (resource_sync_states (current_state (fst (snd ?u)))) \<and>
        map_of (heap (snd (snd ?u)) (resource_sync_states ?prev)) ''Api''
          = Some \<lparr>hash_value = Some (TStr ''h1''), sync_time = stamp1\<rparr> \<and>
        (\<forall>k. k \<noteq> ''Api'' \<longrightarrow>
           map_of (heap (snd (snd ?u)) (resource_sync_states ?prev)) k
             = map_of (heap (snd (snd ?e)) (resource_sync_states ?prev)) k)"
    by (rule update_shares_previous_records[where dep_layer=True and build=build0
          and cache=cache0 and w=world1 and self="fst ?i" and ?w1.0="snd ?i"
          and lib=naive_libs and deps=deps0 and ?r1.0="fst ?e" and ?w2.0="snd (snd ?e)"
          and ?r2.0="fst ?u", OF _ _ p]) simp_all
  from t have p': "previous_state (fst (snd ?u)) = Some ?prev"
    and a: "map_of (heap (snd (snd ?u)) (resource_sync_states ?prev)) ''Api''
          = Some \<lparr>hash_value = Some (TStr ''h1''), sync_time = stamp1\<rparr>"
    and q: "\<forall>k. k \<noteq> ''Api'' \<longrightarrow>
           map_of (heap (snd (snd ?u)) (resource_sync_states ?prev)) k
             = map_of (heap (snd (snd ?e)) (resource_sync_states ?prev)) k"
    by blast+
  from q[rule_format, of "''Stack/Fn''"] h
  have "map_of (heap (snd (snd ?u)) (Suc 0)) ''Stack/Fn'' = Some record0"
    by simp
  with p' a have "previous_state (fst (snd ?u)) = Some ?prev \<and>
        map_of (heap (snd (snd ?u)) (Suc 0)) ''Api''
          = Some \<lparr>hash_value = Some (TStr ''h1''), sync_time = stamp1\<rparr> \<and>
        map_of (heap (snd (snd ?u)) (Suc 0)) ''Stack/Fn'' = Some record0"
    by simp
  then show ?thesis by (simp add: case_prod_beta)
qed

text \<open>
  Claim C3, as stated: for every identifier. It fails in two ways. For the identifier
  \<^verbatim>\<open>a-b\<close> on a new store, the update returns normally and the state decoded from the
  file has no record for \<^verbatim>\<open>a-b\<close>. And after updates for \<^verbatim>\<open>a/b\<close> and then for
  \<^verbatim>\<open>a-b\<close>, a further update for \<^verbatim>\<open>a/b\<close> with hash \<^verbatim>\<open>h3\<close> returns normally,
  and the state decoded from the file has, for \<^verbatim>\<open>a/b\<close>, the record of \<^verbatim>\<open>a-b\<close>
  with hash \<^verbatim>\<open>h2\<close>.
\<close>

theorem update_writes_through_counterexample:
  "(case SyncContext_init True build0 cache0 world0 of
      (self, w1) \<Rightarrow>
        (case update_resource_sync_state naive_libs stamp0 ''a-b'' ''h'' self w1 of
           (r, self', w2) \<Rightarrow>
             r = Inr () \<and>
             (case files w2 (file_path self') of
                None \<Rightarrow> False
              | Some content \<Rightarrow>
                  (case loads naive_libs content of
                     Inl e \<Rightarrow> False
                   | Inr doc \<Rightarrow>
                       (case toml_document_to_sync_state naive_libs doc of
                          Inr (Some st) \<Rightarrow>
                            map_of (resource_sync_states st) ''a-b'' = None
                        | _ \<Rightarrow> False))))) \<and>
   (case SyncContext_init True build0 cache0 world0 of
      (self, w1) \<Rightarrow>
        (case update_resource_sync_state naive_libs stamp0 ''a/b'' ''h1'' self w1 of
           (r1, self1, w2) \<Rightarrow>
             (case update_resource_sync_state naive_libs stamp0 ''a-b'' ''h2'' self1 w2 of
                (r2, self2, w3) \<Rightarrow>
                  (case update_resource_sync_state naive_libs stamp1 ''a/b'' ''h3'' self2 w3 of
                     (r3, self3, w4) \<Rightarrow>
                       r3 = Inr () \<and>
                       (case files w4 (file_path self3) of
                          None \<Rightarrow> False
                        | Some content \<Rightarrow>
                            (case loads naive_libs content of
                               Inl e \<Rightarrow> False
                             | Inr doc \<Rightarrow>
                                 (case toml_document_to_sync_state naive_libs doc of
                                    Inr (Some st) \<Rightarrow>
                                      map_of (resource_sync_states st) ''a/b''
                                        = Some \<lparr>hash_value = Some (TStr ''h2''),
                                                sync_time = stamp0\<rparr>
                                  | _ \<Rightarrow> False)))))))"
  by (simp add: store_defs example_defs encode_defs decode_defs
        fromisoformat_isoformat_naive[OF valid_stamp0]
        fromisoformat_isoformat_naive[OF valid_stamp1])

text \<open>
  Claim C3, amended: for every resource identifier and every hash string, after
  \<^verbatim>\<open>update_resource_sync_state\<close> has returned normally the state file exists, and
  loading and decoding it yields a state. If the identifier contains \<^verbatim>\<open>-\<close>, that
  state has no record for it. Otherwise its record for the identifier is the record that
  the current state holds for the last inserted identifier with the same escaped form; so
  when no identifier inserted after the given one has the same escaped form, it is the
  record with the given hash and the time of the update. The serializer is assumed to
  read back what it wrote; the dictionary and the time are a Python dictionary and a
  \<^verbatim>\<open>datetime\<close>.
\<close>

theorem update_writes_through:
  assumes "roundtrips lib"
    and "python_dict lib (heap w (resource_sync_states (current_state self)))"
    and "reads_back lib utcnow"
    and "update_resource_sync_state lib utcnow resource_id hash_val self w = (Inr (), self', w')"
  shows "\<exists>content doc st.
           files w' (file_path self') = Some content \<and> loads lib content = Inr doc \<and>
           toml_document_to_sync_state lib doc = Inr (Some st) \<and>
           map_of (resource_sync_states st) resource_id
             = (if CHR ''-'' \<in> set resource_id then None
                else surviving_record resource_id
                       (heap w' (resource_sync_states (current_state self')))) \<and>
           (CHR ''-'' \<notin> set resource_id \<and>
            (\<forall>k\<in>set (inserted_after resource_id
                        (heap w (resource_sync_states (current_state self)))).
               replace CHR ''/'' CHR ''-'' k \<noteq> replace CHR ''/'' CHR ''-'' resource_id) \<longrightarrow>
            map_of (resource_sync_states st) resource_id
              = Some \<lparr>hash_value = Some (TStr hash_val), sync_time = utcnow\<rparr>)"
proof -
  let ?a = "resource_sync_states (current_state self)"
  let ?rec = "\<lparr>hash_value = Some (TStr hash_val), sync_time = utcnow\<rparr>"
  let ?d = "AList.update resource_id ?rec (heap w ?a)"
  let ?w1 = "w\<lparr>heap := (heap w)(?a := ?d)\<rparr>"
  let ?S = "\<lparr>dependency_layer = dependency_layer (current_state self),
             resource_sync_states = ?d\<rparr>"
  from assms(4) have s: "self' = self" and wr: "SyncContext_write lib self ?w1 = (Inr (), w')"
    by (auto simp: update_resource_sync_state_def SyncState_update_resource_sync_state_def Let_def
             split: prod.splits)
  from write_cases[OF wr] obtain doc where
    enc: "sync_state_to_toml_document lib ?S = Inr doc"
    and w': "w' = ?w1\<lparr>files := (files ?w1)(file_path self \<mapsto> dumps lib doc)\<rparr>"
    by auto
  have h: "heap w' (resource_sync_states (current_state self')) = ?d"
    using w' s by simp
  have sub: "set ?d \<subseteq> insert (resource_id, ?rec) (set (heap w ?a))"
    by (rule set_update_subset)
  from assms(2) have val0: "\<forall>p\<in>set (heap w ?a). reads_back lib (sync_time (snd p))"
    and dist0: "distinct (map fst (heap w ?a))"
    by (simp_all add: python_dict_def list_all_iff)
  from sub val0 assms(3) have val: "\<forall>p\<in>set ?d. reads_back lib (sync_time (snd p))" by auto
  from dist0 have "distinct (map fst ?d)" by (rule distinct_update)
  with val have pd: "python_dict lib (resource_sync_states ?S)"
    by (simp add: python_dict_def list_all_iff)
  from decode_encode_pointwise[OF enc pd] obtain st where
    dec: "toml_document_to_sync_state lib doc = Inr (Some st)"
    and pt: "map_of (resource_sync_states st) resource_id
             = (if CHR ''-'' \<in> set resource_id then None else surviving_record resource_id ?d)"
    by auto
  have f: "files w' (file_path self') = Some (dumps lib doc)" using w' s by simp
  have l: "loads lib (dumps lib doc) = Inr doc" using assms(1) by (simp add: roundtrips_def)
  have sp: "map_of (resource_sync_states st) resource_id = Some ?rec"
    if "CHR ''-'' \<notin> set resource_id"
      and "\<forall>k\<in>set (inserted_after resource_id (heap w ?a)).
             replace CHR ''/'' CHR ''-'' k \<noteq> replace CHR ''/'' CHR ''-'' resource_id"
    using pt that(1) surviving_record_updated[OF that(2), of ?rec] by simp
  from f l dec pt sp show ?thesis unfolding h by blast
qed

text \<open>Claim C3, amended, at a concrete input: the store holds the identifier
  \<^verbatim>\<open>x-y\<close>, and the identifier of a nested stack is updated.\<close>

theorem update_writes_through_witness:
  "(case SyncContext_init True build0 cache0 world0 of
      (self, w1) \<Rightarrow>
        (case update_resource_sync_state naive_libs stamp0 ''x-y'' ''g'' self w1 of
           (r0, self0, w2) \<Rightarrow>
             (case update_resource_sync_state naive_libs stamp1 ''Stack/Fn'' ''h'' self0 w2 of
                (r, self', w3) \<Rightarrow>
                  r = Inr () \<and>
                  (\<exists>content doc st.
                     files w3 (file_path self') = Some content \<and>
                     loads naive_libs content = Inr doc \<and>
                     toml_document_to_sync_state naive_libs doc = Inr (Some st) \<and>
                     map_of (resource_sync_states st) ''Stack/Fn''
                       = Some \<lparr>hash_value = Some (TStr ''h''), sync_time = stamp1\<rparr>))))"
proof -
  let ?i = "SyncContext_init True build0 cache0 (world0 :: (datetime, datetime toml_document) world)"
  let ?v = "update_resource_sync_state naive_libs stamp0 ''x-y'' ''g'' (fst ?i) (snd ?i)"
  let ?u = "update_resource_sync_state naive_libs stamp1 ''Stack/Fn'' ''h''
              (fst (snd ?v)) (snd (snd ?v))"
  have r: "fst ?u = Inr ()"
    by (simp add: store_defs example_defs encode_defs)
  then have u: "?u = (Inr (), fst (snd ?u), snd (snd ?u))"
    by (metis prod.collapse)
  have d: "heap (snd (snd ?v)) (resource_sync_states (current_state (fst (snd ?v))))
           = [(''x-y'', \<lparr>hash_value = Some (TStr ''g''), sync_time = stamp0\<rparr>)]"
    by (simp add: store_defs example_defs encode_defs)
  have "\<exists>content doc st.
          files (snd (snd ?u)) (file_path (fst (snd ?u))) = Some content \<and>
          loads naive_libs content = Inr doc \<and>
          toml_document_to_sync_state naive_libs doc = Inr (Some st) \<and>
          map_of (resource_sync_states st) ''Stack/Fn''
            = (if CHR ''-'' \<in> set ''Stack/Fn'' then None
               else surviving_record ''Stack/Fn''
                      (heap (snd (snd ?u)) (resource_sync_states (current_state (fst (snd ?u)))))) \<and>
          (CHR ''-'' \<notin> set ''Stack/Fn'' \<and>
           (\<forall>k\<in>set (inserted_after ''Stack/Fn''
                       (heap (snd (snd ?v)) (resource_sync_states (current_state (fst (snd ?v)))))).
              replace CHR ''/'' CHR ''-'' k \<noteq> replace CHR ''/'' CHR ''-'' ''Stack/Fn'') \<longrightarrow>
           map_of (resource_sync_states st) ''Stack/Fn''
             = Some \<lparr>hash_value = Some (TStr ''h''), sync_time = stamp1\<rparr>)"
    by (rule update_writes_through[OF roundtrips_naive_libs _ reads_back_stamp1 u])
       (simp add: d python_dict_def reads_back_stamp0)
  then obtain content doc st where
    a: "files (snd (snd ?u)) (file_path (fst (snd ?u))) = Some content"
    and b: "loads naive_libs content = Inr doc"
    and c: "toml_document_to_sync_state naive_libs doc = Inr (Some st)"
    and e: "CHR ''-'' \<notin> set ''Stack/Fn'' \<and>
           (\<forall>k\<in>set (inserted_after ''Stack/Fn''
                       (heap (snd (snd ?v)) (resource_sync_states (current_state (fst (snd ?v)))))).
              replace CHR ''/'' CHR ''-'' k \<noteq> replace CHR ''/'' CHR ''-'' ''Stack/Fn'') \<longrightarrow>
           map_of (resource_sync_states st) ''Stack/Fn''
             = Some \<lparr>hash_value = Some (TStr ''h''), sync_time = stamp1\<rparr>"
    by blast
  have "CHR ''-'' \<notin> set ''Stack/Fn'' \<and>
           (\<forall>k\<in>set (inserted_after ''Stack/Fn''
                       (heap (snd (snd ?v)) (resource_sync_states (current_state (fst (snd ?v)))))).
              replace CHR ''/'' CHR ''-'' k \<noteq> replace CHR ''/'' CHR ''-'' ''Stack/Fn'')"
    unfolding d by (simp add: inserted_after_def)
  with e have "map_of (resource_sync_states st) ''Stack/Fn''
             = Some \<lparr>hash_value = Some (TStr ''h''), sync_time = stamp1\<rparr>" by blast
  with a b c have "\<exists>content doc st.
          files (snd (snd ?u)) (file_path (fst (snd ?u))) = Some content \<and>
          loads naive_libs content = Inr doc \<and>
          toml_document_to_sync_state naive_libs doc = Inr (Some st) \<and>
          map_of (resource_sync_states st) ''Stack/Fn''
            = Some \<lparr>hash_value = Some (TStr ''h''), sync_time = stamp1\<rparr>" by blast
  with r show ?thesis by (simp add: case_prod_beta)
qed

text \<open>
  Claim C10, as stated: for every state. It fails for a state with a record whose hash
  is \<^verbatim>\<open>None\<close>, which is what the decoder makes of an entry without the \<^verbatim>\<open>hash\<close>
  key: the encoder raises \<^verbatim>\<open>ValueError\<close>, so there is no document. A store that
  loaded such a record raises on exit after \<^verbatim>\<open>_write\<close> has truncated the file, and the
  next store, entered on the empty file, has no previous state.
\<close>

theorem persisted_state_counterexample:
  "sync_state_to_toml_document naive_libs
     \<lparr>dependency_layer = True,
       resource_sync_states = [(''Fn'', \<lparr>hash_value = None, sync_time = stamp0\<rparr>)]\<rparr>
   = Inl ValueError \<and>
   (case SyncContext_init True build0 cache0 world3 of
      (self, w1) \<Rightarrow>
        (case SyncContext_enter naive_libs deps0 self w1 of
           (r1, self1, w2) \<Rightarrow>
             r1 = Inr () \<and>
             heap w2 (resource_sync_states (current_state self1))
               = [(''Fn'', \<lparr>hash_value = None, sync_time = stamp0\<rparr>)] \<and>
             (case SyncContext_exit naive_libs self1 w2 of
                (r2, self2, w3) \<Rightarrow>
                  r2 = Inl ValueError \<and>
                  files w3 (file_path self2) = Some [] \<and>
                  (case SyncContext_init True build0 cache0 w3 of
                     (other, w4) \<Rightarrow>
                       (case SyncContext_enter naive_libs deps0 other w4 of
                          (r3, other', w5) \<Rightarrow>
                            r3 = Inr () \<and> previous_state other' = None)))))"
  by (simp add: store_defs example_defs encode_defs decode_defs
        fromisoformat_isoformat_naive[OF valid_stamp0])

text \<open>
  Claim C10, amended: for every current state (any number of records, none included,
  and either flag) in which every record has a hash, \<^verbatim>\<open>_write\<close> to a writable path
  succeeds, and so does \<^verbatim>\<open>__exit__\<close>; the document written has a truthy
  \<^verbatim>\<open>sync_state\<close> section and a \<^verbatim>\<open>resource_sync_states\<close> section, and decoding it
  yields a state, never null. Consequently any store that later reads a readable file
  with this content gets a previous state: \<^verbatim>\<open>_read\<close> returns normally and
  \<^verbatim>\<open>previous_state\<close> is not \<^verbatim>\<open>None\<close>. The serializer is assumed to read back what it
  wrote.
\<close>

theorem persisted_state_is_read_back:
  assumes "roundtrips lib"
    and "python_dict lib (heap w (resource_sync_states (current_state self)))"
    and "\<forall>p\<in>set (heap w (resource_sync_states (current_state self))). hash_value (snd p) \<noteq> None"
    and "file_path self \<notin> unwritable w"
  shows "\<exists>doc st w'.
           sync_state_to_toml_document lib
             \<lparr>dependency_layer = dependency_layer (current_state self),
               resource_sync_states = heap w (resource_sync_states (current_state self))\<rparr> = Inr doc \<and>
           SyncContext_write lib self w = (Inr (), w') \<and>
           SyncContext_exit lib self w = (Inr (), self, w') \<and>
           files w' (file_path self) = Some (dumps lib doc) \<and>
           truthy (map_of doc SYNC_STATE) \<and>
           map_of doc RESOURCE_SYNC_STATES \<noteq> None \<and>
           toml_document_to_sync_state lib doc = Inr (Some st) \<and>
           (\<forall>other v.
              file_path other = file_path self \<and>
              files v (file_path self) = files w' (file_path self) \<and>
              file_path self \<notin> unreadable v \<longrightarrow>
              fst (SyncContext_read lib other v) = Inr () \<and>
              previous_state (fst (snd (SyncContext_read lib other v))) \<noteq> None)"
proof -
  let ?S = "\<lparr>dependency_layer = dependency_layer (current_state self),
             resource_sync_states = heap w (resource_sync_states (current_state self))\<rparr>"
  from sync_state_to_toml_document_succeeds[where S="?S" and lib=lib] assms(3)
  obtain doc where enc: "sync_state_to_toml_document lib ?S = Inr doc" by auto
  let ?w' = "w\<lparr>files := (files w)(file_path self \<mapsto> dumps lib doc)\<rparr>"
  have wr: "SyncContext_write lib self w = (Inr (), ?w')"
    by (rule write_succeeds[OF assms(4) enc])
  then have ex: "SyncContext_exit lib self w = (Inr (), self, ?w')"
    by (simp add: SyncContext_exit_def)
  have f: "files ?w' (file_path self) = Some (dumps lib doc)" by simp
  from encode_document_shape[OF enc] obtain tbl where
    d: "doc = [(SYNC_STATE, TTable [(DEPENDENCY_LAYER, TBool (dependency_layer ?S))]),
               (RESOURCE_SYNC_STATES, TTable tbl)]" by blast
  have t: "truthy (map_of doc SYNC_STATE)" and n: "map_of doc RESOURCE_SYNC_STATES \<noteq> None"
    unfolding d by simp_all
  from assms(2) have "\<forall>p\<in>set (resource_sync_states ?S). reads_back lib (sync_time (snd p))"
    by (simp add: python_dict_def list_all_iff)
  from encoded_document_decodes[OF enc this]
  obtain st where dec: "toml_document_to_sync_state lib doc = Inr (Some st)" by blast
  have l: "loads lib (dumps lib doc) = Inr doc" using assms(1) by (simp add: roundtrips_def)
  have rb: "\<forall>other v.
              file_path other = file_path self \<and>
              files v (file_path self) = files ?w' (file_path self) \<and>
              file_path self \<notin> unreadable v \<longrightarrow>
              fst (SyncContext_read lib other v) = Inr () \<and>
              previous_state (fst (snd (SyncContext_read lib other v))) \<noteq> None"
  proof (intro allI impI)
    fix other :: "'a SyncContext" and v :: "('a, 'b) world"
    assume a: "file_path other = file_path self \<and>
              files v (file_path self) = files ?w' (file_path self) \<and>
              file_path self \<notin> unreadable v"
    then have "file_path other \<notin> unreadable v" "files v (file_path other) = Some (dumps lib doc)"
      by simp_all
    from read_loaded[OF this l dec]
    show "fst (SyncContext_read lib other v) = Inr () \<and>
          previous_state (fst (snd (SyncContext_read lib other v))) \<noteq> None"
      by simp
  qed
  from enc wr ex f t n dec rb show ?thesis by blast
qed

text \<open>Claim C10, amended, at a concrete input: a store without records is exited, and a
  second store, constructed with the other flag, reads the file.\<close>

theorem persisted_state_is_read_back_witness:
  "(case SyncContext_init False build0 cache0 world0 of
      (self, w1) \<Rightarrow>
        (case SyncContext_exit naive_libs self w1 of
           (r, self', w2) \<Rightarrow>
             r = Inr () \<and>
             (case SyncContext_init True build0 cache0 w2 of
                (other, w3) \<Rightarrow>
                  fst (SyncContext_read naive_libs other w3) = Inr () \<and>
                  previous_state (fst (snd (SyncContext_read naive_libs other w3))) \<noteq> None)))"
proof -
  let ?i = "SyncContext_init False build0 cache0 world0"
  have d: "heap (snd ?i) (resource_sync_states (current_state (fst ?i))) = []"
    by (simp add: store_defs example_defs)
  have wr: "file_path (fst ?i) \<notin> unwritable (snd ?i)"
    by (simp add: store_defs example_defs)
  from persisted_state_is_read_back[OF roundtrips_naive_libs, where w="snd ?i" and self="fst ?i"] d wr
  obtain w' where ex: "SyncContext_exit naive_libs (fst ?i) (snd ?i) = (Inr (), fst ?i, w')"
    and rb: "\<forall>other v.
              file_path other = file_path (fst ?i) \<and>
              files v (file_path (fst ?i)) = files w' (file_path (fst ?i)) \<and>
              file_path (fst ?i) \<notin> unreadable v \<longrightarrow>
              fst (SyncContext_read naive_libs other v) = Inr () \<and>
              previous_state (fst (snd (SyncContext_read naive_libs other v))) \<noteq> None"
    by (auto simp: python_dict_def)
  let ?j = "SyncContext_init True build0 cache0 w'"
  have u: "unreadable w' = {}"
    using ex by (auto simp: store_defs example_defs Let_def split: if_splits sum.splits)
  have "file_path (fst ?j) = file_path (fst ?i)"
    "files (snd ?j) (file_path (fst ?i)) = files w' (file_path (fst ?i))"
    "file_path (fst ?i) \<notin> unreadable (snd ?j)"
    using u by (simp_all add: SyncContext_init_def new_dict_def)
  with rb have "fst (SyncContext_read naive_libs (fst ?j) (snd ?j)) = Inr () \<and>
      previous_state (fst (snd (SyncContext_read naive_libs (fst ?j) (snd ?j)))) \<noteq> None"
    by blast
  with ex show ?thesis by (simp add: case_prod_beta)
qed

end
